theory Spec2Isabelle
  imports Complex_Main "HOL-Library.List_Lexorder" "HOL-Library.Char_ord" "HOL-Library.Log_Nat"
begin

section \<open>Errors and arithmetic of the source language\<close>

text \<open>
  The exceptions that the modelled parts of \<^verbatim>\<open>BiAnalitico.py\<close> can raise. Every
  raise is a value \<open>Inl e\<close> of a sum type, so that "does not raise" is a statement about
  the result and not a consequence of HOL's total functions.
\<close>

datatype py_error =
    ZeroDivisionError
  | OverflowError
  | KeyError string
  | TypeError
  | AttributeError

section \<open>64-bit floats\<close>

text \<open>
  A Python \<^verbatim>\<open>float\<close> (and a \<^verbatim>\<open>numpy.float64\<close>): a finite value, which is a
  rational number, an infinity or the not-a-number value. The sign of a zero is not
  modelled; the code only compares the results with 0 and only divides by a nonzero
  count.
\<close>

datatype pyfloat = Finito rat | PosInf | NegInf | NaNf

text \<open>
  \<open>expoente q\<close> is the integer \<open>e\<close> with \<open>2^e \<le> |q| < 2^(e+1)\<close>, for \<open>q\<close> not 0: the
  difference of the bit lengths of numerator and denominator, or one less.
\<close>

definition expoente :: "rat \<Rightarrow> int" where
  "expoente q =
     (let k = bitlen (fst (quotient_of \<bar>q\<bar>)) - bitlen (snd (quotient_of \<bar>q\<bar>))
      in if 2 powi k \<le> \<bar>q\<bar> then k else k - 1)"

text \<open>Rounding to the nearest integer, a tie to the even one.\<close>

definition arredondar :: "rat \<Rightarrow> int" where
  "arredondar m =
     (let f = \<lfloor>m\<rfloor>; r = m - of_int f
      in if r < 1 / 2 then f else if 1 / 2 < r then f + 1 else if even f then f else f + 1)"

text \<open>
  \<open>fl q\<close> is the float nearest to \<open>q\<close> (IEEE 754 binary64, round to nearest, ties to
  even): 53 significant bits, the smallest exponent -1022 (below it the spacing stays
  \<open>2^-1074\<close>), and an infinity when the rounded value reaches \<open>2^1024\<close>.
\<close>

definition fl :: "rat \<Rightarrow> pyfloat" where
  "fl q =
     (if q = 0 then Finito 0
      else let u = 2 powi (max (expoente q) (- 1022) - 52);
               v = of_int (arredondar (\<bar>q\<bar> / u)) * u
           in if 2 ^ 1024 \<le> v then (if 0 < q then PosInf else NegInf)
              else Finito (if 0 < q then v else - v))"

definition sinal :: "pyfloat \<Rightarrow> int" where
  "sinal x =
     (case x of
        Finito u \<Rightarrow> (if 0 < u then 1 else if u < 0 then - 1 else 0)
      | PosInf \<Rightarrow> 1
      | NegInf \<Rightarrow> - 1
      | NaNf \<Rightarrow> 0)"

text \<open>The product and the quotient of two floats; neither raises.\<close>

definition fmul :: "pyfloat \<Rightarrow> pyfloat \<Rightarrow> pyfloat" where
  "fmul x y =
     (case x of
        Finito u \<Rightarrow>
          (case y of
             Finito v \<Rightarrow> fl (u * v)
           | NaNf \<Rightarrow> NaNf
           | _ \<Rightarrow> (if u = 0 then NaNf else if 0 < sinal x * sinal y then PosInf else NegInf))
      | NaNf \<Rightarrow> NaNf
      | _ \<Rightarrow>
          (if y = NaNf \<or> sinal y = 0 then NaNf
           else if 0 < sinal x * sinal y then PosInf else NegInf))"

definition fdiv :: "pyfloat \<Rightarrow> pyfloat \<Rightarrow> pyfloat" where
  "fdiv x y =
     (case y of
        NaNf \<Rightarrow> NaNf
      | Finito v \<Rightarrow>
          (case x of
             NaNf \<Rightarrow> NaNf
           | Finito u \<Rightarrow>
               (if v = 0 then (if u = 0 then NaNf else if 0 < u then PosInf else NegInf)
                else fl (u / v))
           | PosInf \<Rightarrow> (if v < 0 then NegInf else PosInf)
           | NegInf \<Rightarrow> (if v < 0 then PosInf else NegInf))
      | _ \<Rightarrow> (case x of Finito u \<Rightarrow> Finito 0 | _ \<Rightarrow> NaNf))"

text \<open>\<^verbatim>\<open>x > 0\<close> on a float.\<close>

definition positivo :: "pyfloat \<Rightarrow> bool" where
  "positivo x = (case x of Finito u \<Rightarrow> 0 < u | PosInf \<Rightarrow> True | _ \<Rightarrow> False)"

text \<open>
  \<^verbatim>\<open>a / b\<close> on two Python integers: the correctly rounded quotient of the exact
  integers; ZeroDivisionError for a zero divisor and OverflowError when the quotient is
  too large for a float.
\<close>

definition truediv :: "int \<Rightarrow> int \<Rightarrow> py_error + pyfloat" where
  "truediv a b =
     (if b = 0 then Inl ZeroDivisionError
      else case fl (of_int a / of_int b) of
             Finito v \<Rightarrow> Inr (Finito v)
           | _ \<Rightarrow> Inl OverflowError)"

text \<open>
  \<^verbatim>\<open>a / b\<close> on two \<^verbatim>\<open>numpy.int64\<close> values: both are converted to
  \<^verbatim>\<open>float64\<close> and divided as floats; nothing is raised. The operands are counts of
  rows, which fit in 64 bits; the model takes them as integers.
\<close>

definition np_true_divide :: "int \<Rightarrow> int \<Rightarrow> pyfloat" where
  "np_true_divide a b = fdiv (fl (of_int a)) (fl (of_int b))"

section \<open>The variation calculator\<close>

text \<open>
  \<^verbatim>\<open>
  def analisar_variacao(count_atual, count_anterior):
      if count_anterior == 0:
          if count_atual == 0:
              return 0, 0
          else:
              return 100.0, 1
      var = ((count_atual - count_anterior) / count_anterior) * 100
      return var, 1 if var > 0 else -1
  \<close>
  The body, with the division of the two counts as the parameter \<open>dividir\<close>: which
  division Python runs depends on the type of the operands.
\<close>

definition analisar_variacao_com ::
  "(int \<Rightarrow> int \<Rightarrow> py_error + pyfloat) \<Rightarrow> int \<Rightarrow> int \<Rightarrow> py_error + (pyfloat \<times> int)" where
  "analisar_variacao_com dividir count_atual count_anterior =
     (if count_anterior = 0 then
        (if count_atual = 0 then Inr (Finito 0, 0) else Inr (Finito 100, 1))
      else
        (case dividir (count_atual - count_anterior) count_anterior of
           Inl e \<Rightarrow> Inl e
         | Inr q \<Rightarrow>
             (let var = fmul q (Finito 100)
              in Inr (var, if positivo var then 1 else - 1))))"

text \<open>The calculator on two Python integers.\<close>

definition analisar_variacao :: "int \<Rightarrow> int \<Rightarrow> py_error + (pyfloat \<times> int)" where
  "analisar_variacao = analisar_variacao_com truediv"

text \<open>
  The calculator as the detailed analysis calls it (lines 218 and 242):
  \<^verbatim>\<open>count_anterior\<close> comes from \<^verbatim>\<open>Series.get(motivo, 0)\<close>, a
  \<^verbatim>\<open>numpy.int64\<close> when the reason is in the reference series and the integer 0
  otherwise. With a nonzero \<^verbatim>\<open>count_anterior\<close> the difference is therefore a
  \<^verbatim>\<open>numpy.int64\<close> and the division is numpy's, whichever integer type
  \<^verbatim>\<open>count_atual\<close> has.
\<close>

definition analisar_variacao_np :: "int \<Rightarrow> int \<Rightarrow> py_error + (pyfloat \<times> int)" where
  "analisar_variacao_np = analisar_variacao_com (\<lambda>a b. Inr (np_true_divide a b))"

section \<open>The normalized record set and the period filter\<close>

text \<open>
  One row of the frame that \<^verbatim>\<open>processar_dados\<close> returns, with the columns the
  analysis reads. The categorical columns hold text; the causal-factor column may hold
  a missing cell (\<open>None\<close>).
\<close>

record reclamacao =
  ano :: int
  mes :: string
  segmento :: string
  ds_canal :: string
  natureza :: string
  motivo :: string
  fato_gerador :: "string option"

text \<open>
  \<^verbatim>\<open>df[(df['mes'] == mes_sel) & (df['ano'] == ano_sel)]\<close>
\<close>

definition periodo :: "reclamacao list \<Rightarrow> string \<Rightarrow> int \<Rightarrow> reclamacao list" where
  "periodo df mes_sel ano_sel = filter (\<lambda>r. mes r = mes_sel \<and> ano r = ano_sel) df"

section \<open>The overall summary\<close>

text \<open>
  \<^verbatim>\<open>
  total_atual = len(df_atual)
  total_anterior = len(df_anterior)
  var_diff = total_atual - total_anterior
  variacao = ((var_diff) / total_anterior * 100) if total_anterior != 0 else 0
  \<close>
  The result is the triple (total_anterior, total_atual, variacao) that the summary
  displays.
\<close>

definition resumo_geral ::
  "reclamacao list \<Rightarrow> string \<Rightarrow> int \<Rightarrow> string \<Rightarrow> int \<Rightarrow> py_error + (int \<times> int \<times> pyfloat)" where
  "resumo_geral df mes_atual ano_atual mes_anterior ano_anterior =
     (let df_atual = periodo df mes_atual ano_atual;
          df_anterior = periodo df mes_anterior ano_anterior;
          total_atual = int (length df_atual);
          total_anterior = int (length df_anterior);
          var_diff = total_atual - total_anterior
      in if total_anterior \<noteq> 0 then
           (case truediv var_diff total_anterior of
              Inl e \<Rightarrow> Inl e
            | Inr q \<Rightarrow> Inr (total_anterior, total_atual, fmul q (Finito 100)))
         else Inr (total_anterior, total_atual, Finito 0))"

text \<open>Sample records used by the closed examples below.\<close>

definition rec_exemplo :: "int \<Rightarrow> string \<Rightarrow> string \<Rightarrow> string \<Rightarrow> string \<Rightarrow> string \<Rightarrow> reclamacao" where
  "rec_exemplo a m s c n mo =
     \<lparr>ano = a, mes = m, segmento = s, ds_canal = c, natureza = n, motivo = mo,
      fato_gerador = None\<rparr>"

section \<open>Counting and joining, as pandas does it\<close>

text \<open>
  \<^verbatim>\<open>Series.unique()\<close>: the distinct values in order of first appearance.
\<close>

fun unique :: "'a list \<Rightarrow> 'a list" where
  "unique [] = []"
| "unique (x # xs) = x # unique (filter (\<lambda>y. y \<noteq> x) xs)"

text \<open>
  \<^verbatim>\<open>Series.value_counts()\<close>: one entry per distinct value with its number of
  occurrences, by descending count. Values with equal counts are kept in order of first
  appearance (a stable sort); no property below depends on the order among ties.
\<close>

definition value_counts :: "string list \<Rightarrow> (string \<times> int) list" where
  "value_counts col =
     sort_key (\<lambda>(k, c). - c) (map (\<lambda>k. (k, int (count_list col k))) (unique col))"

text \<open>
  Reading a counted series at a key, with 0 for an absent key: what
  \<^verbatim>\<open>fillna(0)\<close>, \<^verbatim>\<open>fill_value=0\<close> and \<^verbatim>\<open>.get(key, 0)\<close> give.
\<close>

definition get0 :: "(string \<times> int) list \<Rightarrow> string \<Rightarrow> int" where
  "get0 s k = (case map_of s k of Some c \<Rightarrow> c | None \<Rightarrow> 0)"

text \<open>
  \<^verbatim>\<open>
  comparacao = pd.concat([atual, anterior], axis=1).fillna(0)
  comparacao['Variacao'] = comparacao['Atual'] - comparacao['Anterior']
  \<close>
  The outer join of the two counted series on their keys: the keys of the first, then
  the keys only the second has. A row is (key, Atual, Anterior, Variacao).
\<close>

definition comparacao ::
  "(string \<times> int) list \<Rightarrow> (string \<times> int) list \<Rightarrow> (string \<times> int \<times> int \<times> int) list" where
  "comparacao atual anterior =
     map (\<lambda>k. (k, get0 atual k, get0 anterior k, get0 atual k - get0 anterior k))
         (unique (map fst atual @ map fst anterior))"

text \<open>
  \<^verbatim>\<open>atual.subtract(anterior, fill_value=0)\<close>: the two series are aligned on the union
  of their keys. pandas keeps the order of the keys when both series have the same
  index and sorts the union otherwise, also when one of the series is empty.
\<close>

definition subtract_fill0 ::
  "(string \<times> int) list \<Rightarrow> (string \<times> int) list \<Rightarrow> (string \<times> int) list" where
  "subtract_fill0 s t =
     (let ks = map fst s; kt = map fst t;
          idx = (if ks = kt then ks else sort (unique (ks @ kt)))
      in map (\<lambda>k. (k, get0 s k - get0 t k)) idx)"

text \<open>
  \<^verbatim>\<open>Series.nsmallest(n)\<close> and \<^verbatim>\<open>Series.nlargest(n)\<close> with the default
  \<^verbatim>\<open>keep='first'\<close>: a stable sort by value (ascending, respectively descending),
  then the first n entries.
\<close>

definition nsmallest :: "nat \<Rightarrow> (string \<times> int) list \<Rightarrow> (string \<times> int) list" where
  "nsmallest n s = take n (sort_key snd s)"

definition nlargest :: "nat \<Rightarrow> (string \<times> int) list \<Rightarrow> (string \<times> int) list" where
  "nlargest n s = take n (sort_key (\<lambda>(k, v). - v) s)"

text \<open>Running a step that may raise over a list: the first error ends the loop.\<close>

fun traverse :: "('a \<Rightarrow> 'e + 'b) \<Rightarrow> 'a list \<Rightarrow> 'e + 'b list" where
  "traverse f [] = Inr []"
| "traverse f (x # xs) =
     (case f x of
        Inl e \<Rightarrow> Inl e
      | Inr y \<Rightarrow> (case traverse f xs of Inl e \<Rightarrow> Inl e | Inr ys \<Rightarrow> Inr (y # ys)))"

section \<open>Analysis by segment and channel\<close>

text \<open>
  \<^verbatim>\<open>df_atual if canal == 'Geral' else df_atual[df_atual['ds_canal'] == canal]\<close>
\<close>

definition por_canal :: "string \<Rightarrow> reclamacao list \<Rightarrow> reclamacao list" where
  "por_canal canal d = (if canal = ''Geral'' then d else filter (\<lambda>r. ds_canal r = canal) d)"

text \<open>
  \<^verbatim>\<open>
  for segmento in df['segmento'].dropna().unique():
      st.subheader(f"Segmento: {segmento}")
      for canal in ['Procon', 'Ouvidoria', 'Geral']:
          df_atual_canal = df_atual if canal == 'Geral' else df_atual[df_atual['ds_canal'] == canal]
          df_anterior_canal = df_anterior if canal == 'Geral' else df_anterior[df_anterior['ds_canal'] == canal]
          if df_atual_canal.empty and df_anterior_canal.empty:
              continue
          natureza_atual = df_atual_canal['natureza'].value_counts().rename("Atual")
          natureza_anterior = df_anterior_canal['natureza'].value_counts().rename("Anterior")
          comparacao_natureza = pd.concat([natureza_atual, natureza_anterior], axis=1).fillna(0)
          ...
          st.dataframe(comparacao_natureza)
          (the same for 'motivo')
          st.dataframe(comparacao_motivo)
  \<close>
  The result lists what is displayed: for each segment heading and each channel that is
  not skipped, the nature table and the reason table.
\<close>

definition comparacao_natureza ::
  "reclamacao list \<Rightarrow> reclamacao list \<Rightarrow> (string \<times> int \<times> int \<times> int) list" where
  "comparacao_natureza df_atual_canal df_anterior_canal =
     comparacao (value_counts (map natureza df_atual_canal))
                (value_counts (map natureza df_anterior_canal))"

definition comparacao_motivo ::
  "reclamacao list \<Rightarrow> reclamacao list \<Rightarrow> (string \<times> int \<times> int \<times> int) list" where
  "comparacao_motivo df_atual_canal df_anterior_canal =
     comparacao (value_counts (map motivo df_atual_canal))
                (value_counts (map motivo df_anterior_canal))"

definition tabelas_canal ::
  "reclamacao list \<Rightarrow> reclamacao list \<Rightarrow> string \<Rightarrow>
   (string \<times> (string \<times> int \<times> int \<times> int) list \<times> (string \<times> int \<times> int \<times> int) list) list" where
  "tabelas_canal df_atual df_anterior canal =
     (let df_atual_canal = por_canal canal df_atual;
          df_anterior_canal = por_canal canal df_anterior
      in if df_atual_canal = [] \<and> df_anterior_canal = [] then []
         else [(canal,
                comparacao_natureza df_atual_canal df_anterior_canal,
                comparacao_motivo df_atual_canal df_anterior_canal)])"

definition analise_segmento_canal ::
  "reclamacao list \<Rightarrow> reclamacao list \<Rightarrow> reclamacao list \<Rightarrow>
   (string \<times> (string \<times> (string \<times> int \<times> int \<times> int) list
                      \<times> (string \<times> int \<times> int \<times> int) list) list) list" where
  "analise_segmento_canal df df_atual df_anterior =
     map (\<lambda>seg. (seg, concat (map (tabelas_canal df_atual df_anterior)
                                   [''Procon'', ''Ouvidoria'', ''Geral''])))
         (unique (map segmento df))"

section \<open>Detailed analysis by nature\<close>

text \<open>
  \<^verbatim>\<open>
  motivos_atual = df_segmento_atual[df_segmento_atual['natureza'] == natureza]['motivo'].value_counts()
  motivos_anterior = df_segmento_anterior[df_segmento_anterior['natureza'] == natureza]['motivo'].value_counts()
  for motivo, count_atual in motivos_atual.items():
      count_anterior = motivos_anterior.get(motivo, 0)
      var_motivo, _ = analisar_variacao(count_atual, count_anterior)
      (displays: motivo: count_anterior -> count_atual (var_motivo %))
  \<close>
  A displayed line is (motivo, count_anterior, count_atual, var_motivo).
\<close>

definition motivos_relacionados ::
  "reclamacao list \<Rightarrow> reclamacao list \<Rightarrow> string \<Rightarrow> py_error + (string \<times> int \<times> int \<times> pyfloat) list" where
  "motivos_relacionados df_segmento_atual df_segmento_anterior natur =
     (let motivos_atual =
            value_counts (map motivo (filter (\<lambda>r. natureza r = natur) df_segmento_atual));
          motivos_anterior =
            value_counts (map motivo (filter (\<lambda>r. natureza r = natur) df_segmento_anterior))
      in traverse (\<lambda>(mo, count_atual).
                     let count_anterior = get0 motivos_anterior mo
                     in case analisar_variacao_np count_atual count_anterior of
                          Inl e \<Rightarrow> Inl e
                        | Inr (var_motivo, _) \<Rightarrow> Inr (mo, count_anterior, count_atual, var_motivo))
                  motivos_atual)"

text \<open>
  \<^verbatim>\<open>
  fatos_geradores = df_segmento_atual[df_segmento_atual['natureza'] == natureza]
                        ['fato_gerador_fato_gerador'].value_counts()
  for fato, count in fatos_geradores.head(5).items(): ...
  \<close>
  \<^verbatim>\<open>value_counts\<close> leaves missing cells out.
\<close>

definition fatos_geradores :: "reclamacao list \<Rightarrow> string \<Rightarrow> (string \<times> int) list" where
  "fatos_geradores df_segmento_atual natur =
     take 5 (value_counts
               (concat (map (\<lambda>r. case fato_gerador r of None \<Rightarrow> [] | Some f \<Rightarrow> [f])
                            (filter (\<lambda>r. natureza r = natur) df_segmento_atual))))"

text \<open>
  One expander of the detailed analysis: the nature, its variation in count, the
  reason lines and the most common causal factors.
\<close>

record detalhe =
  det_natureza :: string
  det_variacao :: int
  det_motivos :: "(string \<times> int \<times> int \<times> pyfloat) list"
  det_fatos :: "(string \<times> int) list"

definition expander ::
  "reclamacao list \<Rightarrow> reclamacao list \<Rightarrow> string \<times> int \<Rightarrow> py_error + detalhe" where
  "expander df_segmento_atual df_segmento_anterior nv =
     (case motivos_relacionados df_segmento_atual df_segmento_anterior (fst nv) of
        Inl e \<Rightarrow> Inl e
      | Inr ms \<Rightarrow> Inr \<lparr>det_natureza = fst nv, det_variacao = snd nv, det_motivos = ms,
                       det_fatos = fatos_geradores df_segmento_atual (fst nv)\<rparr>)"

text \<open>
  \<^verbatim>\<open>
  df_segmento_atual = df_atual[df_atual['segmento'] == segmento]
  df_segmento_anterior = df_anterior[df_anterior['segmento'] == segmento]
  count_atual_natureza = df_segmento_atual['natureza'].value_counts()
  count_anterior_natureza = df_segmento_anterior['natureza'].value_counts()
  naturezas_positivas = count_atual_natureza.subtract(count_anterior_natureza, fill_value=0)
  \<close>
\<close>

definition naturezas_positivas ::
  "string \<Rightarrow> reclamacao list \<Rightarrow> reclamacao list \<Rightarrow> (string \<times> int) list" where
  "naturezas_positivas seg df_atual df_anterior =
     subtract_fill0
       (value_counts (map natureza (filter (\<lambda>r. segmento r = seg) df_atual)))
       (value_counts (map natureza (filter (\<lambda>r. segmento r = seg) df_anterior)))"

text \<open>
  \<^verbatim>\<open>
  for natureza, variacao in naturezas_positivas.nsmallest(5).items():
      if variacao < 0: (expander)
  for natureza, variacao in naturezas_positivas.nlargest(5).items():
      if variacao > 0: (expander)
  \<close>
\<close>

definition naturezas_reducao ::
  "string \<Rightarrow> reclamacao list \<Rightarrow> reclamacao list \<Rightarrow> py_error + detalhe list" where
  "naturezas_reducao seg df_atual df_anterior =
     traverse (expander (filter (\<lambda>r. segmento r = seg) df_atual)
                        (filter (\<lambda>r. segmento r = seg) df_anterior))
       (filter (\<lambda>(n, variacao). variacao < 0)
          (nsmallest 5 (naturezas_positivas seg df_atual df_anterior)))"

definition naturezas_aumento ::
  "string \<Rightarrow> reclamacao list \<Rightarrow> reclamacao list \<Rightarrow> py_error + detalhe list" where
  "naturezas_aumento seg df_atual df_anterior =
     traverse (expander (filter (\<lambda>r. segmento r = seg) df_atual)
                        (filter (\<lambda>r. segmento r = seg) df_anterior))
       (filter (\<lambda>(n, variacao). variacao > 0)
          (nlargest 5 (naturezas_positivas seg df_atual df_anterior)))"

section \<open>Text\<close>

text \<open>
  A Python string is modelled as a \<open>string\<close> whose characters are the code points
  below 256 (Latin-1), which hold the Portuguese month names. \<^verbatim>\<open>str.lower()\<close>
  maps the upper-case letters A-Z and U+00C0-U+00DE (without the sign U+00D7) to the
  letter 32 code points above and leaves every other character of this range as it is.
\<close>

definition maiuscula :: "nat \<Rightarrow> bool" where
  "maiuscula n = ((65 \<le> n \<and> n \<le> 90) \<or> (192 \<le> n \<and> n \<le> 214) \<or> (216 \<le> n \<and> n \<le> 222))"

definition lower_chr :: "char \<Rightarrow> char" where
  "lower_chr c = (if maiuscula (of_char c) then char_of (of_char c + 32 :: nat) else c)"

definition lower :: "string \<Rightarrow> string" where
  "lower s = map lower_chr s"

text \<open>
  The characters that \<^verbatim>\<open>str.strip()\<close> removes: those for which
  \<^verbatim>\<open>str.isspace()\<close> holds, in this range U+0009-U+000D, U+001C-U+0020, U+0085
  and U+00A0.
\<close>

definition isspace :: "char \<Rightarrow> bool" where
  "isspace c = (let n = (of_char c :: nat) in
      (9 \<le> n \<and> n \<le> 13) \<or> (28 \<le> n \<and> n \<le> 32) \<or> n = 133 \<or> n = 160)"

definition strip :: "string \<Rightarrow> string" where
  "strip s = rev (dropWhile isspace (rev (dropWhile isspace s)))"

section \<open>The record normalizer\<close>

text \<open>
  \<^verbatim>\<open>
  ORDEM_MESES = ['janeiro', 'fevereiro', 'marco', 'abril', 'maio', 'junho',
                 'julho', 'agosto', 'setembro', 'outubro', 'novembro', 'dezembro']
  meses_map = {'jan': 'janeiro', 'fev': 'fevereiro', 'mar': 'marco', 'abr': 'abril',
               'mai': 'maio', 'jun': 'junho', 'jul': 'julho', 'ago': 'agosto',
               'set': 'setembro', 'out': 'outubro', 'nov': 'novembro', 'dez': 'dezembro'}
  \<close>
  The third month is written with c-cedilla (U+00E7) in the source.
\<close>

definition ORDEM_MESES :: "string list" where
  "ORDEM_MESES =
     [''janeiro'', ''fevereiro'', ''mar'' @ [CHR 0xE7] @ ''o'', ''abril'', ''maio'', ''junho'',
      ''julho'', ''agosto'', ''setembro'', ''outubro'', ''novembro'', ''dezembro'']"

definition meses_map :: "(string \<times> string) list" where
  "meses_map =
     [(''jan'', ''janeiro''), (''fev'', ''fevereiro''), (''mar'', ''mar'' @ [CHR 0xE7] @ ''o''),
      (''abr'', ''abril''), (''mai'', ''maio''), (''jun'', ''junho''), (''jul'', ''julho''),
      (''ago'', ''agosto''), (''set'', ''setembro''), (''out'', ''outubro''),
      (''nov'', ''novembro''), (''dez'', ''dezembro'')]"

text \<open>
  A cell of the table read from the CSV file: missing, text or a number. A frame has
  its column names and its rows, each row with one cell per column.
\<close>

datatype cell = NaN | Str string | Num rat

record dataframe =
  columns :: "string list"
  linhas :: "cell list list"

definition retangular :: "dataframe \<Rightarrow> bool" where
  "retangular df = list_all (\<lambda>r. length r = length (columns df)) (linhas df)"

text \<open>\<^verbatim>\<open>pd.DataFrame()\<close>\<close>

definition DataFrame_vazio :: dataframe where
  "DataFrame_vazio = \<lparr>columns = [], linhas = []\<rparr>"

text \<open>
  \<^verbatim>\<open>
  df.columns = df.columns.str.lower().str.strip()
  if 'mes (with circumflex)' in df.columns:
      df.rename(columns={'mes (with circumflex)': 'mes'}, inplace=True)
  \<close>
\<close>

definition mes_acento :: string where
  "mes_acento = ''m'' @ [CHR 0xEA] @ ''s''"

definition nomes_colunas :: "string list \<Rightarrow> string list" where
  "nomes_colunas cols =
     (let c1 = map (\<lambda>c. strip (lower c)) cols
      in if mes_acento \<in> set c1 then map (\<lambda>c. if c = mes_acento then ''mes'' else c) c1
         else c1)"

text \<open>
  \<^verbatim>\<open>df[c]\<close> used as one column: a missing name raises KeyError; a name that two
  columns carry gives a frame instead of a column, on which the next operation raises
  (the error \<open>dup\<close>).
\<close>

definition posicoes :: "string \<Rightarrow> string list \<Rightarrow> nat list" where
  "posicoes c cols = filter (\<lambda>i. cols ! i = c) [0..<length cols]"

definition coluna_unica :: "string \<Rightarrow> py_error \<Rightarrow> string list \<Rightarrow> py_error + nat" where
  "coluna_unica c dup cols =
     (case posicoes c cols of
        [] \<Rightarrow> Inl (KeyError c)
      | [i] \<Rightarrow> Inr i
      | _ \<Rightarrow> Inl dup)"

text \<open>
  \<^verbatim>\<open>df['ano'] = pd.to_numeric(df['ano'], errors='coerce').astype('Int64')\<close>

  What \<^verbatim>\<open>pd.to_numeric\<close> reads from a text cell is the parameter \<open>num\<close> (\<open>None\<close>
  when the text is not a number, which \<^verbatim>\<open>errors='coerce'\<close> turns into a missing
  value). \<^verbatim>\<open>astype('Int64')\<close> raises TypeError when a value of the column is not
  an integer of the 64-bit range.
\<close>

definition to_numeric :: "(string \<Rightarrow> rat option) \<Rightarrow> cell \<Rightarrow> cell" where
  "to_numeric num c =
     (case c of
        NaN \<Rightarrow> NaN
      | Num q \<Rightarrow> Num q
      | Str s \<Rightarrow> (case num s of None \<Rightarrow> NaN | Some q \<Rightarrow> Num q))"

definition inteiro :: "cell \<Rightarrow> bool" where
  "inteiro c =
     (case c of
        Num q \<Rightarrow> q = of_int \<lfloor>q\<rfloor> \<and> - (2 ^ 63) \<le> q \<and> q < 2 ^ 63
      | _ \<Rightarrow> True)"

definition converter_ano ::
  "(string \<Rightarrow> rat option) \<Rightarrow> nat \<Rightarrow> cell list list \<Rightarrow> py_error + cell list list" where
  "converter_ano num i rows =
     (if list_all (\<lambda>r. inteiro (to_numeric num (r ! i))) rows
      then Inr (map (\<lambda>r. r[i := to_numeric num (r ! i)]) rows)
      else Inl TypeError)"

text \<open>
  \<^verbatim>\<open>
  df['mes'] = df['mes'].str.lower().str.strip()
  df['mes'] = df['mes'].replace(meses_map).astype('category')
  df['mes'] = pd.Categorical(df['mes'], categories=ORDEM_MESES, ordered=True)
  \<close>
  The \<^verbatim>\<open>.str\<close> methods give a missing value for a cell that is not text;
  \<^verbatim>\<open>replace\<close> exchanges a cell equal to a key of the table for the key's value;
  \<^verbatim>\<open>pd.Categorical\<close> makes every value outside the categories missing.
\<close>

definition str_lower :: "cell \<Rightarrow> cell" where
  "str_lower c = (case c of Str s \<Rightarrow> Str (lower s) | _ \<Rightarrow> NaN)"

definition str_strip :: "cell \<Rightarrow> cell" where
  "str_strip c = (case c of Str s \<Rightarrow> Str (strip s) | _ \<Rightarrow> NaN)"

definition replace_meses :: "cell \<Rightarrow> cell" where
  "replace_meses c =
     (case c of
        Str s \<Rightarrow> (case map_of meses_map s of Some full \<Rightarrow> Str full | None \<Rightarrow> Str s)
      | _ \<Rightarrow> c)"

definition categorical :: "cell \<Rightarrow> cell" where
  "categorical c =
     (case c of Str s \<Rightarrow> (if s \<in> set ORDEM_MESES then Str s else NaN) | _ \<Rightarrow> NaN)"

definition canon_mes :: "cell \<Rightarrow> cell" where
  "canon_mes c = categorical (replace_meses (str_strip (str_lower c)))"

text \<open>
  The \<^verbatim>\<open>.str\<close> accessor raises AttributeError on a column that is not of text type:
  a column with rows and without any text cell is read from the file as a numeric
  column.
\<close>

definition eh_texto :: "cell \<Rightarrow> bool" where
  "eh_texto c = (case c of Str s \<Rightarrow> True | _ \<Rightarrow> False)"

definition converter_mes :: "nat \<Rightarrow> cell list list \<Rightarrow> py_error + cell list list" where
  "converter_mes i rows =
     (if rows \<noteq> [] \<and> list_all (\<lambda>r. \<not> eh_texto (r ! i)) rows then Inl AttributeError
      else Inr (map (\<lambda>r. r[i := canon_mes (r ! i)]) rows))"

text \<open>\<^verbatim>\<open>df = df.dropna(subset=['mes', 'ano'])\<close>\<close>

definition dropna_mes_ano :: "nat \<Rightarrow> nat \<Rightarrow> cell list list \<Rightarrow> cell list list" where
  "dropna_mes_ano i_mes i_ano rows = filter (\<lambda>r. r ! i_mes \<noteq> NaN \<and> r ! i_ano \<noteq> NaN) rows"

text \<open>The columns that the filling loop goes through.\<close>

definition colunas_categoricas :: "string list" where
  "colunas_categoricas = [''segmento'', ''ds_canal'', ''natureza'', ''motivo'']"

text \<open>
  \<^verbatim>\<open>
  for col in ['segmento', 'ds_canal', 'natureza', 'motivo']:
      if col in df.columns:
          df[col] = df[col].fillna('desconhecido')
      else:
          df[col] = 'desconhecido'
  \<close>
  One round of the loop, on the column names and the rows.
\<close>

definition desconhecido :: cell where
  "desconhecido = Str ''desconhecido''"

definition preencher ::
  "string \<Rightarrow> string list \<times> cell list list \<Rightarrow> string list \<times> cell list list" where
  "preencher col df =
     (if col \<in> set (fst df)
      then (fst df,
            map (\<lambda>r. map (\<lambda>(n, c). if n = col \<and> c = NaN then desconhecido else c)
                          (zip (fst df) r))
                (snd df))
      else (fst df @ [col], map (\<lambda>r. r @ [desconhecido]) (snd df)))"

text \<open>
  \<^verbatim>\<open>
  if 'fato_gerador_fato_gerador' not in df.columns:
      df['fato_gerador_fato_gerador'] = 'desconhecido'
  \<close>
\<close>

definition criar_fato_gerador ::
  "string list \<times> cell list list \<Rightarrow> string list \<times> cell list list" where
  "criar_fato_gerador df =
     (if ''fato_gerador_fato_gerador'' \<notin> set (fst df)
      then (fst df @ [''fato_gerador_fato_gerador''], map (\<lambda>r. r @ [desconhecido]) (snd df))
      else df)"

text \<open>
  The body of the \<^verbatim>\<open>try\<close> block of \<^verbatim>\<open>processar_dados\<close>, every raise a value
  \<open>Inl e\<close>, in the order of the source: the year column is read and converted before the
  month column is read.
\<close>

definition processar_dados_try ::
  "(string \<Rightarrow> rat option) \<Rightarrow> dataframe \<Rightarrow> py_error + dataframe" where
  "processar_dados_try num df =
     (let cols = nomes_colunas (columns df) in
      case coluna_unica ''ano'' TypeError cols of
        Inl e \<Rightarrow> Inl e
      | Inr i_ano \<Rightarrow>
      (case converter_ano num i_ano (linhas df) of
        Inl e \<Rightarrow> Inl e
      | Inr rows1 \<Rightarrow>
      (case coluna_unica ''mes'' AttributeError cols of
        Inl e \<Rightarrow> Inl e
      | Inr i_mes \<Rightarrow>
      (case converter_mes i_mes rows1 of
        Inl e \<Rightarrow> Inl e
      | Inr rows2 \<Rightarrow>
         (let filled = fold preencher colunas_categoricas
                         (cols, dropna_mes_ano i_mes i_ano rows2);
              final = criar_fato_gerador filled
          in Inr \<lparr>columns = fst final, linhas = snd final\<rparr>)))))"

text \<open>
  \<^verbatim>\<open>
  def processar_dados(df):
      try:
          ...
          return df
      except Exception as e:
          st.error(f"Erro no processamento: {str(e)}")
          return pd.DataFrame()
  \<close>
  The result is the error reported through \<^verbatim>\<open>st.error\<close>, if any, and the frame
  returned.
\<close>

definition processar_dados ::
  "(string \<Rightarrow> rat option) \<Rightarrow> dataframe \<Rightarrow> py_error option \<times> dataframe" where
  "processar_dados num df =
     (case processar_dados_try num df of
        Inl e \<Rightarrow> (Some e, DataFrame_vazio)
      | Inr out \<Rightarrow> (None, out))"

section \<open>Notions used to state the properties of the normalizer\<close>

text \<open>
  A row of the input is retained when its month resolves to a canonical name and its
  year to a number; \<open>convertida\<close> is the row with both cells converted.
\<close>

definition retida :: "(string \<Rightarrow> rat option) \<Rightarrow> nat \<Rightarrow> nat \<Rightarrow> cell list \<Rightarrow> bool" where
  "retida num i_mes i_ano r = (canon_mes (r ! i_mes) \<noteq> NaN \<and> to_numeric num (r ! i_ano) \<noteq> NaN)"

definition convertida :: "(string \<Rightarrow> rat option) \<Rightarrow> nat \<Rightarrow> nat \<Rightarrow> cell list \<Rightarrow> cell list" where
  "convertida num i_mes i_ano r =
     (r[i_ano := to_numeric num (r ! i_ano)])[i_mes := canon_mes (r ! i_mes)]"

text \<open>
  \<open>estende S a b\<close>: the frame \<open>b\<close> has the rows of \<open>a\<close> in the same order and the
  columns of \<open>a\<close> followed by new ones; a cell of an old column is the cell of \<open>a\<close>,
  with a missing cell filled in the columns named in \<open>S\<close>; a cell of a new column is
  filled.
\<close>

definition estende ::
  "string set \<Rightarrow> string list \<times> cell list list \<Rightarrow> string list \<times> cell list list \<Rightarrow> bool" where
  "estende S a b =
     (length (snd b) = length (snd a)
      \<and> length (fst a) \<le> length (fst b)
      \<and> take (length (fst a)) (fst b) = fst a
      \<and> S \<subseteq> set (fst b)
      \<and> (\<forall>k < length (snd a).
            length (snd b ! k) = length (fst b)
          \<and> (\<forall>j < length (fst b).
                snd b ! k ! j =
                  (if j < length (fst a)
                   then (if fst a ! j \<in> S \<and> snd a ! k ! j = NaN then desconhecido
                         else snd a ! k ! j)
                   else desconhecido))))"

text \<open>
  The spelling variants of a month name that the specification lists: \<open>caixa c d\<close>
  holds when \<open>c\<close> is the letter \<open>d\<close> or its capital, and \<open>variante v n\<close> when \<open>v\<close> is
  \<open>n\<close> in any mix of upper and lower case, with any whitespace before and after.
\<close>

definition caixa :: "char \<Rightarrow> char \<Rightarrow> bool" where
  "caixa c d = (c = d \<or> (maiuscula (of_char c) \<and> (of_char d :: nat) = of_char c + 32))"

definition variante :: "string \<Rightarrow> string \<Rightarrow> bool" where
  "variante v n =
     list_ex (\<lambda>i. list_all isspace (take i v)
                 \<and> list_all2 caixa (take (length n) (drop i v)) n
                 \<and> list_all isspace (drop (i + length n) v))
             [0..<Suc (length v)]"

text \<open>The twelve abbreviations, in the order of the months.\<close>

definition ABREVIACOES :: "string list" where
  "ABREVIACOES = map fst meses_map"

section \<open>Sample data\<close>

text \<open>
  Two segments in January 2025 (the current period) and one in January 2024 (the
  reference period).
\<close>

definition dados_segmentos :: "reclamacao list" where
  "dados_segmentos =
     [rec_exemplo 2025 ''janeiro'' ''A'' ''Procon'' ''X'' ''m1'',
      rec_exemplo 2025 ''janeiro'' ''B'' ''Procon'' ''Y'' ''m2'',
      rec_exemplo 2024 ''janeiro'' ''A'' ''Ouvidoria'' ''X'' ''m3'',
      rec_exemplo 2024 ''janeiro'' ''A'' ''Ouvidoria'' ''X'' ''m3'']"

text \<open>
  One segment with four natures: P falls from 3 to 0, Q falls from 2 to 1, R stays at
  1 and S rises from 0 to 2.
\<close>

definition dados_ranking :: "reclamacao list" where
  "dados_ranking =
     [rec_exemplo 2024 ''maio'' ''A'' ''Procon'' ''P'' ''m1'',
      rec_exemplo 2024 ''maio'' ''A'' ''Procon'' ''P'' ''m1'',
      rec_exemplo 2024 ''maio'' ''A'' ''Procon'' ''P'' ''m2'',
      rec_exemplo 2024 ''maio'' ''A'' ''Procon'' ''Q'' ''m1'',
      rec_exemplo 2024 ''maio'' ''A'' ''Procon'' ''Q'' ''m3'',
      rec_exemplo 2024 ''maio'' ''A'' ''Procon'' ''R'' ''m1'',
      rec_exemplo 2025 ''maio'' ''A'' ''Procon'' ''Q'' ''m1'',
      rec_exemplo 2025 ''maio'' ''A'' ''Procon'' ''R'' ''m1'',
      rec_exemplo 2025 ''maio'' ''A'' ''Procon'' ''S'' ''m4'',
      rec_exemplo 2025 ''maio'' ''A'' ''Procon'' ''S'' ''m4'']"

definition ranking_atual :: "reclamacao list" where
  "ranking_atual = periodo dados_ranking ''maio'' 2025"

definition ranking_anterior :: "reclamacao list" where
  "ranking_anterior = periodo dados_ranking ''maio'' 2024"

text \<open>The expanders that the detailed analysis shows for \<open>dados_ranking\<close>.\<close>

definition det_P :: detalhe where
  "det_P = \<lparr>det_natureza = ''P'', det_variacao = - 3, det_motivos = [], det_fatos = []\<rparr>"

definition det_Q :: detalhe where
  "det_Q = \<lparr>det_natureza = ''Q'', det_variacao = - 1,
            det_motivos = [(''m1'', 1, 1, Finito 0)], det_fatos = []\<rparr>"

definition det_S :: detalhe where
  "det_S = \<lparr>det_natureza = ''S'', det_variacao = 2,
            det_motivos = [(''m4'', 0, 2, Finito 100)], det_fatos = []\<rparr>"

text \<open>
  A table with spelling variants in its header and month column, a missing
  causal-factor cell, a missing segment, an unknown month and a missing year. Only the
  text "2024" is read as a number.
\<close>

definition num_exemplo :: "string \<Rightarrow> rat option" where
  "num_exemplo s = (if s = ''2024'' then Some 2024 else None)"

definition tabela_exemplo :: dataframe where
  "tabela_exemplo =
     \<lparr>columns = ['' ANO'', ''M'' @ [CHR 0xCA] @ ''S '', ''fato_gerador_fato_gerador'',
                 ''Segmento''],
      linhas = [[Num 2025, Str '' Jan '', NaN, Str ''A''],
                [Str ''2024'', Str (''MAR'' @ [CHR 0xC7] @ ''O''), Str ''f'', NaN],
                [Num 2025, Str ''xyz'', Str ''g'', Str ''B''],
                [NaN, Str ''fev'', Str ''g'', Str ''B'']]\<rparr>"

definition saida_exemplo :: dataframe where
  "saida_exemplo =
     \<lparr>columns = [''ano'', ''mes'', ''fato_gerador_fato_gerador'', ''segmento'',
                 ''ds_canal'', ''natureza'', ''motivo''],
      linhas = [[Num 2025, Str ''janeiro'', NaN, Str ''A'', Str ''desconhecido'',
                 Str ''desconhecido'', Str ''desconhecido''],
                [Num 2024, Str (''mar'' @ [CHR 0xE7] @ ''o''), Str ''f'', Str ''desconhecido'',
                 Str ''desconhecido'', Str ''desconhecido'', Str ''desconhecido'']]\<rparr>"

definition tabela_sem_ano :: dataframe where
  "tabela_sem_ano = \<lparr>columns = [''Mes'', ''Natureza''], linhas = [[Str ''jan'', Str ''N'']]\<rparr>"

section \<open>Properties of the floats\<close>

lemma bitlen_rat:
  assumes "0 < x"
  shows "(2::rat) powi (bitlen x - 1) \<le> of_int x" and "(of_int x :: rat) < 2 powi (bitlen x)"
proof -
  have b: "2 ^ nat (bitlen x - 1) \<le> x" "x < 2 ^ nat (bitlen x)"
    using bitlen_bounds[OF assms] by auto
  have pos: "1 \<le> bitlen x" using assms by (auto simp: bitlen_alt_def)
  have "(of_int (2 ^ nat (bitlen x - 1)) :: rat) \<le> of_int x" using b(1) by (simp only: of_int_le_iff)
  then show "(2::rat) powi (bitlen x - 1) \<le> of_int x"
    using pos by (simp add: power_int_def)
  have "(of_int x :: rat) < of_int (2 ^ nat (bitlen x))" using b(2) by (simp only: of_int_less_iff)
  then show "(of_int x :: rat) < 2 powi (bitlen x)"
    using pos by (simp add: power_int_def)
qed

lemma quotient_pos:
  assumes "0 < (q::rat)"
  shows "0 < fst (quotient_of q)" and "0 < snd (quotient_of q)"
    and "q = of_int (fst (quotient_of q)) / of_int (snd (quotient_of q))"
proof -
  obtain n d where nd: "quotient_of q = (n, d)" by (cases "quotient_of q")
  have d: "0 < d" using nd by (rule quotient_of_denom_pos)
  have e: "q = of_int n / of_int d" using nd by (rule quotient_of_div)
  have n: "0 < n"
  proof (rule ccontr)
    assume "\<not> 0 < n"
    then have "(of_int n :: rat) \<le> 0" by simp
    then have "q \<le> 0" using d e by (simp add: divide_le_0_iff)
    then show False using assms by simp
  qed
  show "0 < fst (quotient_of q)" "0 < snd (quotient_of q)"
    "q = of_int (fst (quotient_of q)) / of_int (snd (quotient_of q))"
    using n d e nd by simp_all
qed

lemma expoente_bracket:
  assumes "0 < q"
  shows "2 powi (expoente q) \<le> q" and "q < 2 powi (expoente q + 1)"
proof -
  let ?n = "fst (quotient_of q)" and ?d = "snd (quotient_of q)"
  let ?k = "bitlen ?n - bitlen ?d"
  have aq: "\<bar>q\<bar> = q" using assms by simp
  have n: "0 < ?n" and d: "0 < ?d" and q: "q = of_int ?n / of_int ?d"
    using quotient_pos[OF assms] by auto
  have e: "expoente q = (if 2 powi ?k \<le> q then ?k else ?k - 1)"
    by (simp add: expoente_def aq Let_def)
  have nl: "(2::rat) powi (bitlen ?n - 1) \<le> of_int ?n" and nu: "(of_int ?n :: rat) < 2 powi (bitlen ?n)"
    using bitlen_rat[OF n] by auto
  have dl: "(2::rat) powi (bitlen ?d - 1) \<le> of_int ?d" and du: "(of_int ?d :: rat) < 2 powi (bitlen ?d)"
    using bitlen_rat[OF d] by auto
  have lo: "(2::rat) powi (?k - 1) \<le> q"
  proof -
    have "(2::rat) powi (?k - 1) = 2 powi (bitlen ?n - 1) / 2 powi (bitlen ?d)"
      by (simp add: power_int_diff[symmetric] algebra_simps)
    also have "\<dots> \<le> of_int ?n / of_int ?d"
      using nl du d n by (intro frac_le) auto
    finally show ?thesis using q by simp
  qed
  have hi: "q < (2::rat) powi (?k + 1)"
  proof -
    have "of_int ?n / of_int ?d < (2::rat) powi (bitlen ?n) / 2 powi (bitlen ?d - 1)"
      using nu dl n by (intro frac_less) auto
    also have "\<dots> = 2 powi (?k + 1)"
      by (simp add: power_int_diff[symmetric] algebra_simps)
    finally show ?thesis using q by simp
  qed
  show "2 powi (expoente q) \<le> q" using e lo by auto
  show "q < 2 powi (expoente q + 1)" using e hi by (auto simp: not_le)
qed

lemma arredondar_bounds:
  "of_int (arredondar m) \<le> m + 1" "m - 1 \<le> of_int (arredondar m)"
  "of_int N \<le> m \<Longrightarrow> N \<le> arredondar m"
proof -
  have f: "\<lfloor>m\<rfloor> \<le> arredondar m" "arredondar m \<le> \<lfloor>m\<rfloor> + 1"
    by (auto simp: arredondar_def Let_def)
  have "(of_int (arredondar m) :: rat) \<le> of_int (\<lfloor>m\<rfloor> + 1)" using f(2) by (simp only: of_int_le_iff)
  then show "of_int (arredondar m) \<le> m + 1" by (simp add: le_floor_iff) linarith
  have "(of_int \<lfloor>m\<rfloor> :: rat) \<le> of_int (arredondar m)" using f(1) by (simp only: of_int_le_iff)
  then show "m - 1 \<le> of_int (arredondar m)" by linarith
  assume "of_int N \<le> m"
  then have "N \<le> \<lfloor>m\<rfloor>" by (simp add: le_floor_iff)
  then show "N \<le> arredondar m" using f(1) by simp
qed


lemma ulp_le:
  assumes "q \<noteq> 0"
  shows "2 powi (max (expoente q) (- 1022) - 52) \<le> \<bar>q\<bar> + 1"
proof (cases "- 1022 \<le> expoente q")
  case True
  have "expoente \<bar>q\<bar> = expoente q" by (simp add: expoente_def)
  then have b: "2 powi (expoente q) \<le> \<bar>q\<bar>"
    using expoente_bracket(1)[of "\<bar>q\<bar>"] assms by simp
  have "(2::rat) powi (expoente q - 52) \<le> 2 powi (expoente q)"
    by (rule power_int_increasing) auto
  then show ?thesis using True b by (simp add: max_def)
next
  case False
  have "(2::rat) powi (- 1074) \<le> 2 powi 0" by (rule power_int_increasing) auto
  then have "(2::rat) powi (- 1074) \<le> 1" by simp
  moreover have "max (expoente q) (- 1022) - 52 = - 1074" using False by (simp add: max_def)
  ultimately have "(2::rat) powi (max (expoente q) (- 1022) - 52) \<le> 1" by simp
  then show ?thesis using abs_ge_zero[of q] by linarith
qed

lemma fl_finite:
  assumes B: "\<bar>q\<bar> \<le> B" and small: "2 * B + 1 < 2 ^ 1024"
  shows "\<exists>v. fl q = Finito v \<and> \<bar>v\<bar> \<le> 2 * B + 1"
proof (cases "q = 0")
  case True
  then show ?thesis using B by (simp add: fl_def)
next
  case False
  let ?u = "(2::rat) powi (max (expoente q) (- 1022) - 52)"
  let ?r = "arredondar (\<bar>q\<bar> / ?u)"
  let ?v = "of_int ?r * ?u"
  have u: "0 < ?u" by simp
  have m0: "0 \<le> \<bar>q\<bar> / ?u" using u by simp
  have r0: "0 \<le> ?r" using arredondar_bounds(3)[of 0 "\<bar>q\<bar> / ?u"] m0 by simp
  have v0: "0 \<le> ?v" using r0 u by simp
  have "?v \<le> (\<bar>q\<bar> / ?u + 1) * ?u"
    using arredondar_bounds(1)[of "\<bar>q\<bar> / ?u"] u by (intro mult_right_mono) auto
  also have "\<dots> = \<bar>q\<bar> + ?u" using u by (simp add: algebra_simps)
  also have "\<dots> \<le> 2 * \<bar>q\<bar> + 1" using ulp_le[OF False] by simp
  also have "\<dots> \<le> 2 * B + 1" using B by simp
  finally have vb: "?v \<le> 2 * B + 1" .
  then have nov: "\<not> 2 ^ 1024 \<le> ?v" using small by simp
  define w where "w = ?v"
  have "fl q = Finito (if 0 < q then w else - w)"
    using False nov unfolding w_def by (simp add: fl_def Let_def)
  moreover have "\<bar>if 0 < q then w else - w\<bar> \<le> 2 * B + 1"
    using v0 vb unfolding w_def[symmetric] by simp
  ultimately show ?thesis by blast
qed

lemma fl_overflow:
  assumes big: "2 ^ 1024 \<le> q"
  shows "fl q = PosInf"
proof -
  have "(0::rat) < 2 ^ 1024" by simp
  then have q0: "0 < q" using big by linarith
  let ?e = "max (expoente q) (- 1022) - 52"
  let ?u = "(2::rat) powi ?e"
  let ?r = "arredondar (\<bar>q\<bar> / ?u)"
  let ?v = "of_int ?r * ?u"
  have u: "0 < ?u" by simp
  have aq: "\<bar>q\<bar> = q" using q0 by simp
  have T: "(2::rat) powi 1024 = 2 ^ 1024" by (simp only: power_int_numeral)
  have v: "2 ^ 1024 \<le> ?v"
  proof (cases "?e \<le> 1024")
    case True
    define N :: int where "N = 2 ^ nat (1024 - ?e)"
    have N: "(2::rat) powi (1024 - ?e) = of_int N"
      using True unfolding N_def by (simp add: power_int_def)
    have split: "(2::rat) powi (1024 - ?e) * ?u = 2 powi 1024"
      by (subst power_int_add[symmetric]) simp_all
    have "(2::rat) powi (1024 - ?e) = 2 powi 1024 / ?u"
      using split u by (simp add: field_simps del: power_int_numeral)
    also have "\<dots> \<le> q / ?u" using big u unfolding T by (rule divide_right_mono[OF _ less_imp_le])
    finally have "of_int N \<le> \<bar>q\<bar> / ?u" unfolding N aq .
    then have "N \<le> ?r" by (rule arredondar_bounds(3))
    then have "(of_int N :: rat) \<le> of_int ?r" by (simp only: of_int_le_iff)
    then have "of_int N * ?u \<le> ?v" using u by (intro mult_right_mono) auto
    then have "(2::rat) powi (1024 - ?e) * ?u \<le> ?v" unfolding N .
    then show ?thesis unfolding split T .
  next
    case False
    then have e: "?e = expoente q - 52" and big_e: "1024 \<le> expoente q - 52"
      by (auto simp: max_def split: if_splits)
    have b: "2 powi (expoente q) \<le> q" using expoente_bracket(1)[OF q0] .
    have split: "(2::rat) powi 52 * 2 powi (expoente q - 52) = 2 powi (expoente q)"
      by (subst power_int_add[symmetric]) simp_all
    have u': "0 < (2::rat) powi (expoente q - 52)" by simp
    have "(of_int (2 ^ 52) :: rat) = 2 powi 52" by simp
    also have "\<dots> = 2 powi (expoente q) / 2 powi (expoente q - 52)"
      using split u' by (simp add: field_simps del: power_int_numeral)
    also have "\<dots> \<le> q / 2 powi (expoente q - 52)"
      using b u' by (rule divide_right_mono[OF _ less_imp_le])
    finally have "of_int (2 ^ 52) \<le> \<bar>q\<bar> / ?u" unfolding aq e .
    then have "2 ^ 52 \<le> ?r" by (rule arredondar_bounds(3))
    then have "1 \<le> ?r" by simp
    then have "(1::rat) \<le> of_int ?r" by simp
    then have "1 * ?u \<le> ?v" using u by (intro mult_right_mono) auto
    then have uv: "?u \<le> ?v" by simp
    have "(2::rat) powi 1024 \<le> 2 powi (expoente q - 52)"
      using big_e by (intro power_int_increasing) auto
    then have "(2::rat) ^ 1024 \<le> ?u" unfolding T e .
    then show ?thesis using uv by (rule order_trans)
  qed
  have "q \<noteq> 0" using q0 by simp
  then show ?thesis using v q0 by (simp add: fl_def Let_def del: power_numeral)
qed


lemma fl_lower:
  assumes q1: "1 \<le> q" and f: "fl q = Finito v"
  shows "q / 2 \<le> v"
proof -
  have q0: "0 < q" using q1 by simp
  let ?e = "expoente q"
  have e0: "0 \<le> ?e"
  proof (rule ccontr)
    assume "\<not> 0 \<le> ?e"
    then have "?e + 1 \<le> 0" by simp
    then have "(2::rat) powi (?e + 1) \<le> 2 powi 0" by (intro power_int_increasing) auto
    then have "(2::rat) powi (?e + 1) \<le> 1" by simp
    then show False using expoente_bracket(2)[OF q0] q1 by linarith
  qed
  then have me: "max ?e (- 1022) - 52 = ?e - 52" by (simp add: max_def)
  let ?u = "(2::rat) powi (?e - 52)"
  let ?r = "arredondar (\<bar>q\<bar> / ?u)"
  have u: "0 < ?u" by simp
  have aq: "\<bar>q\<bar> = q" using q0 by simp
  have split: "?u * 2 powi 52 = 2 powi ?e"
    by (subst power_int_add[symmetric]) simp_all
  have "?u * 2 \<le> ?u * 2 powi 52"
    using u by (intro mult_left_mono) auto
  also have "\<dots> \<le> q" unfolding split using expoente_bracket(1)[OF q0] .
  finally have uq: "?u \<le> q / 2" by simp
  have "(q / ?u - 1) * ?u \<le> of_int ?r * ?u"
    using arredondar_bounds(2)[of "\<bar>q\<bar> / ?u"] u unfolding aq by (intro mult_right_mono) auto
  moreover have "(q / ?u - 1) * ?u = q - ?u" using u by (simp add: algebra_simps)
  ultimately have rv: "q - ?u \<le> of_int ?r * ?u" by simp
  have "q \<noteq> 0" using q0 by simp
  then have "fl q = (if 2 ^ 1024 \<le> of_int ?r * ?u then PosInf else Finito (of_int ?r * ?u))"
    using q0 me by (simp add: fl_def Let_def aq del: power_numeral)
  then have "v = of_int ?r * ?u" using f by (auto split: if_splits)
  then show ?thesis using rv uq by linarith
qed

section \<open>Properties of the variation calculator\<close>

lemma limites:
  "2 * (2 ^ 63 :: rat) + 1 < 2 ^ 1024"
  "2 * ((2 ^ 64 + 1) * 100 :: rat) + 1 < 2 ^ 1024"
  "2 * ((2 ^ 64 + 1) * 2 :: rat) + 1 < 2 ^ 1024"
  "2 * ((2 * ((2 ^ 64 + 1) * 2) + 1) * 100 :: rat) + 1 < 2 ^ 1024"
  by simp_all

lemma quociente_limitado:
  assumes a: "\<bar>a\<bar> \<le> 2 ^ 63" and b: "(b::int) \<noteq> 0"
  shows "\<bar>of_int a / of_int b :: rat\<bar> \<le> 2 ^ 63"
proof -
  have b1: "(1::rat) \<le> \<bar>of_int b\<bar>"
  proof -
    have "1 \<le> \<bar>b\<bar>" using b by simp
    then have "(of_int 1 :: rat) \<le> of_int \<bar>b\<bar>" by (simp only: of_int_le_iff)
    then show ?thesis by simp
  qed
  have "(of_int \<bar>a\<bar> :: rat) \<le> of_int (2 ^ 63)" using a by (simp only: of_int_le_iff)
  then have a1: "\<bar>of_int a :: rat\<bar> \<le> 2 ^ 63" by simp
  have "\<bar>of_int a / of_int b :: rat\<bar> = \<bar>of_int a\<bar> / \<bar>of_int b\<bar>" by simp
  also have "\<dots> \<le> \<bar>of_int a\<bar> / 1" using b1 by (intro divide_left_mono) auto
  finally show ?thesis using a1 by simp
qed

lemma truediv_limitada:
  assumes a: "\<bar>a\<bar> \<le> 2 ^ 63" and b: "b \<noteq> 0"
  shows "\<exists>v. truediv a b = Inr (Finito v) \<and> \<bar>v\<bar> \<le> 2 ^ 64 + 1"
proof -
  obtain v where v: "fl (of_int a / of_int b) = Finito v" "\<bar>v\<bar> \<le> 2 * 2 ^ 63 + 1"
    using fl_finite[OF quociente_limitado[OF a b] limites(1)] by blast
  then show ?thesis using b by (simp add: truediv_def)
qed

lemma vezes_100_limitada:
  assumes "\<bar>v\<bar> \<le> B" and "2 * (B * 100) + 1 < 2 ^ 1024"
  shows "\<exists>p. fmul (Finito v) (Finito 100) = Finito p"
proof -
  have "\<bar>v * 100\<bar> \<le> B * 100" using assms(1) by (simp add: abs_mult)
  from fl_finite[OF this assms(2)] show ?thesis by (auto simp: fmul_def)
qed

lemma np_true_divide_limitada:
  assumes a: "\<bar>a\<bar> \<le> 2 ^ 63" and b1: "1 \<le> b" and b2: "b \<le> 2 ^ 63"
  shows "\<exists>v. np_true_divide a b = Finito v \<and> \<bar>v\<bar> \<le> 2 * ((2 ^ 64 + 1) * 2) + 1"
proof -
  have "\<bar>of_int a / of_int (1::int) :: rat\<bar> \<le> 2 ^ 63" using a by (intro quociente_limitado) auto
  then have qa: "\<bar>of_int a :: rat\<bar> \<le> 2 ^ 63" by simp
  obtain t where t: "fl (of_int a) = Finito t" "\<bar>t\<bar> \<le> 2 * 2 ^ 63 + 1"
    using fl_finite[OF qa limites(1)] by blast
  have "\<bar>b\<bar> \<le> 2 ^ 63" using b1 b2 by simp
  then have "\<bar>of_int b / of_int (1::int) :: rat\<bar> \<le> 2 ^ 63" by (intro quociente_limitado) auto
  then have qb: "\<bar>of_int b :: rat\<bar> \<le> 2 ^ 63" by simp
  obtain w where w: "fl (of_int b) = Finito w"
    using fl_finite[OF qb limites(1)] by blast
  have "(of_int 1 :: rat) \<le> of_int b" using b1 by (simp only: of_int_le_iff)
  then have rb: "(1::rat) \<le> of_int b" by simp
  have wl: "of_int b / 2 \<le> w" using fl_lower[OF rb w] .
  then have w2: "1 / 2 \<le> w" using rb by linarith
  then have w0: "w \<noteq> 0" by auto
  have "\<bar>t / w\<bar> = \<bar>t\<bar> / w" using w2 by simp
  also have "\<dots> \<le> \<bar>t\<bar> / (1 / 2)" using w2 by (intro divide_left_mono) auto
  also have "\<dots> \<le> (2 ^ 64 + 1) * 2" using t(2) by simp
  finally have "\<bar>t / w\<bar> \<le> (2 ^ 64 + 1) * 2" .
  from fl_finite[OF this limites(3)] show ?thesis
    using t(1) w w0 by (simp add: np_true_divide_def fdiv_def)
qed

lemma analisar_variacao_sentinela:
  "analisar_variacao 0 0 = Inr (Finito 0, 0)"
  "0 < c \<Longrightarrow> analisar_variacao c 0 = Inr (Finito 100, 1)"
  "analisar_variacao_np 0 0 = Inr (Finito 0, 0)"
  "0 < c \<Longrightarrow> analisar_variacao_np c 0 = Inr (Finito 100, 1)"
  by (simp_all add: analisar_variacao_def analisar_variacao_np_def analisar_variacao_com_def)

text \<open>
  C2, amended. For every pair of non-negative integers below \<open>2^63\<close>, which every number
  of rows is, the calculator returns a pair with a finite percentage and does not
  raise, with Python's division as with numpy's. It returns (0, 0) at (0, 0), and for
  every positive current count with reference count 0 it returns exactly (100, +1),
  whatever the magnitude of the current count.
\<close>

theorem analisar_variacao_limitada:
  assumes "0 \<le> a" and "a < 2 ^ 63" and "0 \<le> b" and "b < 2 ^ 63"
  shows "(\<exists>p d. analisar_variacao a b = Inr (Finito p, d))
       \<and> (\<exists>p d. analisar_variacao_np a b = Inr (Finito p, d))
       \<and> analisar_variacao 0 0 = Inr (Finito 0, 0)
       \<and> (0 < c \<longrightarrow> analisar_variacao c 0 = Inr (Finito 100, 1))"
proof -
  have s: "analisar_variacao 0 0 = Inr (Finito 0, 0)"
    "0 < c \<longrightarrow> analisar_variacao c 0 = Inr (Finito 100, 1)"
    using analisar_variacao_sentinela by simp_all
  have r: "(\<exists>p d. analisar_variacao a b = Inr (Finito p, d))
         \<and> (\<exists>p d. analisar_variacao_np a b = Inr (Finito p, d))"
  proof (cases "b = 0")
    case True
    then show ?thesis
      by (simp add: analisar_variacao_def analisar_variacao_np_def analisar_variacao_com_def)
  next
    case False
    have d: "\<bar>a - b\<bar> \<le> 2 ^ 63" using assms by simp
    have b1: "1 \<le> b" "b \<le> 2 ^ 63" using assms False by simp_all
    obtain v where v: "truediv (a - b) b = Inr (Finito v)" "\<bar>v\<bar> \<le> 2 ^ 64 + 1"
      using truediv_limitada[OF d False] by blast
    obtain p where p: "fmul (Finito v) (Finito 100) = Finito p"
      using vezes_100_limitada[OF v(2) limites(2)] by blast
    obtain v' where v': "np_true_divide (a - b) b = Finito v'"
        "\<bar>v'\<bar> \<le> 2 * ((2 ^ 64 + 1) * 2) + 1"
      using np_true_divide_limitada[OF d b1] by blast
    obtain p' where p': "fmul (Finito v') (Finito 100) = Finito p'"
      using vezes_100_limitada[OF v'(2) limites(4)] by blast
    show ?thesis
      using False v(1) p v'(1) p'
      by (simp add: analisar_variacao_def analisar_variacao_np_def analisar_variacao_com_def
                    Let_def)
  qed
  show ?thesis using r s by blast
qed

theorem analisar_variacao_limitada_witness:
  "(0::int) \<le> 3 \<and> (3::int) < 2 ^ 63 \<and> (0::int) \<le> 4 \<and> (4::int) < 2 ^ 63 \<and> (0::int) < 7
   \<and> (\<exists>p d. analisar_variacao 3 4 = Inr (Finito p, d))
   \<and> (\<exists>p d. analisar_variacao_np 3 4 = Inr (Finito p, d))
   \<and> analisar_variacao 7 0 = Inr (Finito 100, 1)"
  using analisar_variacao_limitada [of 3 4 7] by simp

text \<open>
  C2, as stated, fails: the calculator is not total over the non-negative integers and
  its percentage is not always finite. At (10^309, 1) the division raises
  OverflowError, and at (10^307, 1) the quotient is a float but its product with 100
  is inf.
\<close>

theorem analisar_variacao_overflow_counterexample:
  "analisar_variacao (10 ^ 309) 1 = Inl OverflowError
   \<and> analisar_variacao (10 ^ 307) 1 = Inr (PosInf, 1)"
proof -
  have big: "(2::rat) ^ 1024 \<le> of_int (10 ^ 309 - 1) / of_int 1" by simp
  have "fl (of_int (10 ^ 309 - 1) / of_int 1) = PosInf" using big by (rule fl_overflow)
  then have one: "analisar_variacao (10 ^ 309) 1 = Inl OverflowError"
    by (simp add: analisar_variacao_def analisar_variacao_com_def truediv_def
             del: of_int_diff of_int_power of_int_numeral power_numeral)
  let ?q = "of_int (10 ^ 307 - 1) / of_int 1 :: rat"
  have qb: "\<bar>?q\<bar> \<le> 10 ^ 307" by simp
  have sm: "2 * (10 ^ 307 :: rat) + 1 < 2 ^ 1024" by simp
  obtain v where v: "fl ?q = Finito v" using fl_finite[OF qb sm] by blast
  have q1: "1 \<le> ?q" by simp
  have "?q / 2 \<le> v" using fl_lower[OF q1 v] .
  moreover have "(2::rat) ^ 1024 \<le> ?q / 2 * 100" by simp
  ultimately have "(2::rat) ^ 1024 \<le> v * 100" by linarith
  then have "fl (v * 100) = PosInf" by (rule fl_overflow)
  then have two: "analisar_variacao (10 ^ 307) 1 = Inr (PosInf, 1)"
    using v
    by (simp add: analisar_variacao_def analisar_variacao_com_def truediv_def fmul_def
                  positivo_def
             del: of_int_diff of_int_power of_int_numeral power_numeral)
  show ?thesis using one two by simp
qed

text \<open>
  C3. With equal, nonzero counts the percentage is 0 and the calculator returns the
  direction -1, where the claim (and the calculator's own (0, 0) branch for "no
  change") has direction 0.
\<close>

theorem analisar_variacao_equal_counts:
  "analisar_variacao 5 5 = Inr (Finito 0, - 1)
   \<and> analisar_variacao_np 5 5 = Inr (Finito 0, - 1)"
proof -
  have z: "fl 0 = Finito 0" by (simp add: fl_def)
  have "\<bar>of_int (5::int) :: rat\<bar> \<le> 2 ^ 63" by simp
  then obtain w where w: "fl (of_int (5::int)) = Finito w"
    using fl_finite[OF _ limites(1)] by blast
  have "(1::rat) \<le> of_int (5::int)" by simp
  from fl_lower[OF this w] have "w \<noteq> 0" by auto
  then have "np_true_divide 0 5 = Finito 0"
    using w z by (simp add: np_true_divide_def fdiv_def)
  then show ?thesis
    using z
    by (simp add: analisar_variacao_def analisar_variacao_np_def analisar_variacao_com_def
                  truediv_def fmul_def positivo_def)
qed

text \<open>
  C4, as stated, fails: with one record in the current period (janeiro 2025) and none
  in the reference period (fevereiro 2025) the summary shows the percentage 0, not the
  sentinel 100 that the variation calculator returns for the same two counts.
\<close>

theorem resumo_geral_sentinel_counterexample:
  "periodo [rec_exemplo 2025 ''janeiro'' ''A'' ''Procon'' ''N'' ''M''] ''fevereiro'' 2025 = []
   \<and> periodo [rec_exemplo 2025 ''janeiro'' ''A'' ''Procon'' ''N'' ''M''] ''janeiro'' 2025 \<noteq> []
   \<and> resumo_geral [rec_exemplo 2025 ''janeiro'' ''A'' ''Procon'' ''N'' ''M'']
        ''janeiro'' 2025 ''fevereiro'' 2025 = Inr (0, 1, Finito 0)
   \<and> resumo_geral [rec_exemplo 2025 ''janeiro'' ''A'' ''Procon'' ''N'' ''M'']
        ''janeiro'' 2025 ''fevereiro'' 2025 \<noteq> Inr (0, 1, Finito 100)
   \<and> analisar_variacao 1 0 = Inr (Finito 100, 1)"
  by (simp add: resumo_geral_def periodo_def rec_exemplo_def analisar_variacao_def
                analisar_variacao_com_def Let_def)

text \<open>
  C4, amended. Whenever the reference-period subset is empty, the overall summary does
  not raise and shows the percentage 0 (the explicit \<^verbatim>\<open>else 0\<close> of the source),
  whatever the size of the current-period subset.
\<close>

theorem resumo_geral_empty_reference:
  assumes "periodo df mes_anterior ano_anterior = []"
  shows "resumo_geral df mes_atual ano_atual mes_anterior ano_anterior
           = Inr (0, int (length (periodo df mes_atual ano_atual)), Finito 0)"
  using assms by (simp add: resumo_geral_def Let_def)

theorem resumo_geral_empty_reference_witness:
  "periodo [rec_exemplo 2025 ''janeiro'' ''A'' ''Procon'' ''N'' ''M''] ''fevereiro'' 2025 = []
   \<and> resumo_geral [rec_exemplo 2025 ''janeiro'' ''A'' ''Procon'' ''N'' ''M'']
        ''janeiro'' 2025 ''fevereiro'' 2025
       = Inr (0, int (length (periodo [rec_exemplo 2025 ''janeiro'' ''A'' ''Procon'' ''N'' ''M'']
                                ''janeiro'' 2025)), Finito 0)"
proof -
  have h: "periodo [rec_exemplo 2025 ''janeiro'' ''A'' ''Procon'' ''N'' ''M''] ''fevereiro'' 2025 = []"
    by (simp add: periodo_def rec_exemplo_def)
  show ?thesis
    using h resumo_geral_empty_reference [OF h, of "''janeiro''" 2025] by simp
qed

section \<open>Properties of counting and joining\<close>

lemma set_unique: "set (unique xs) = set xs"
  by (induction xs rule: unique.induct) auto

lemma distinct_unique: "distinct (unique xs)"
  by (induction xs rule: unique.induct) (auto simp: set_unique)

lemma keys_value_counts: "set (map fst (value_counts col)) = set col"
  by (simp add: value_counts_def set_unique image_image)

lemma distinct_map_sort_key:
  "distinct (map f (sort_key g xs)) = distinct (map f xs)"
  by (simp add: distinct_map)

lemma distinct_keys_value_counts: "distinct (map fst (value_counts col))"
  by (simp add: value_counts_def distinct_map_sort_key comp_def distinct_unique)

lemma map_of_value_counts:
  "map_of (value_counts col) k = (if k \<in> set col then Some (int (count_list col k)) else None)"
proof (cases "k \<in> set col")
  case True
  have "(k, int (count_list col k)) \<in> set (value_counts col)"
    using True by (auto simp: value_counts_def set_unique)
  then show ?thesis
    using True distinct_keys_value_counts[of col] by simp
next
  case False
  then have "k \<notin> fst ` set (value_counts col)"
    using keys_value_counts[of col] by simp
  then show ?thesis using False by (simp add: map_of_eq_None_iff)
qed

lemma get0_value_counts: "get0 (value_counts col) k = int (count_list col k)"
  by (simp add: get0_def map_of_value_counts)

lemma comparacao_value_counts:
  "comparacao (value_counts xs) (value_counts ys) =
     map (\<lambda>k. (k, int (count_list xs k), int (count_list ys k),
                int (count_list xs k) - int (count_list ys k)))
         (unique (map fst (value_counts xs) @ map fst (value_counts ys)))"
  by (simp add: comparacao_def get0_value_counts)

lemma keys_comparacao:
  "set (map fst (comparacao (value_counts xs) (value_counts ys))) = set xs \<union> set ys"
  using keys_value_counts[of xs] keys_value_counts[of ys]
  by (simp add: comparacao_def set_unique comp_def)

lemma distinct_keys_comparacao: "distinct (map fst (comparacao s t))"
  by (simp add: comparacao_def comp_def distinct_unique)

lemma subtract_value_counts_index:
  "set (map fst (subtract_fill0 (value_counts xs) (value_counts ys))) = set xs \<union> set ys"
proof -
  let ?ks = "map fst (value_counts xs)" and ?kt = "map fst (value_counts ys)"
  have kx: "set ?ks = set xs" and ky: "set ?kt = set ys"
    by (rule keys_value_counts)+
  have idx: "map fst (subtract_fill0 (value_counts xs) (value_counts ys))
             = (if ?ks = ?kt then ?ks else sort (unique (?ks @ ?kt)))"
    by (simp add: subtract_fill0_def Let_def comp_def)
  show ?thesis
  proof (cases "?ks = ?kt")
    case True
    then have "set ys = set xs" using kx ky by metis
    then show ?thesis using True idx kx by auto
  next
    case False
    then show ?thesis using idx kx ky by (simp add: set_unique)
  qed
qed

lemma subtract_value_counts_rows:
  "(k, v) \<in> set (subtract_fill0 (value_counts xs) (value_counts ys))
   \<Longrightarrow> v = int (count_list xs k) - int (count_list ys k)"
  by (auto simp: subtract_fill0_def Let_def get0_value_counts split: if_splits)

lemma distinct_keys_subtract:
  "distinct (map fst (subtract_fill0 (value_counts xs) (value_counts ys)))"
  using distinct_keys_value_counts[of xs] distinct_keys_value_counts[of ys]
  by (auto simp: subtract_fill0_def Let_def comp_def distinct_unique)


lemma comparacao_rows:
  "(k, ca, cb, d) \<in> set (comparacao (value_counts xs) (value_counts ys))
   \<Longrightarrow> ca = int (count_list xs k) \<and> cb = int (count_list ys k) \<and> d = ca - cb"
  by (auto simp: comparacao_value_counts)

lemma comparacao_row_present:
  "k \<in> set xs \<union> set ys
   \<Longrightarrow> (k, int (count_list xs k), int (count_list ys k),
        int (count_list xs k) - int (count_list ys k))
       \<in> set (comparacao (value_counts xs) (value_counts ys))"
proof -
  assume k: "k \<in> set xs \<union> set ys"
  have "set (unique (map fst (value_counts xs) @ map fst (value_counts ys))) = set xs \<union> set ys"
    using keys_value_counts[of xs] keys_value_counts[of ys] by (simp add: set_unique)
  then show ?thesis using k unfolding comparacao_value_counts by (simp add: image_iff)
qed

lemma subtract_row_present:
  "k \<in> set xs \<union> set ys
   \<Longrightarrow> (k, int (count_list xs k) - int (count_list ys k))
       \<in> set (subtract_fill0 (value_counts xs) (value_counts ys))"
proof -
  assume k: "k \<in> set xs \<union> set ys"
  then have "k \<in> set (map fst (subtract_fill0 (value_counts xs) (value_counts ys)))"
    by (simp only: subtract_value_counts_index)
  then obtain v where v: "(k, v) \<in> set (subtract_fill0 (value_counts xs) (value_counts ys))"
    by auto
  then show ?thesis using subtract_value_counts_rows[OF v] by simp
qed

text \<open>
  C5. For any current and reference subsets, the keys of the nature table and of the
  reason table of the channel analysis, and of the nature variation series of the
  detailed analysis, are exactly the values occurring in either subset, each once.
  Every such key has a row carrying its count in the current subset and its count in
  the reference subset; the count of a value that a subset does not contain is 0.
\<close>

theorem chaves_agregadas:
  "set (map fst (comparacao_natureza a b)) = natureza ` set a \<union> natureza ` set b
   \<and> set (map fst (comparacao_motivo a b)) = motivo ` set a \<union> motivo ` set b
   \<and> set (map fst (naturezas_positivas seg a b))
       = natureza ` {r \<in> set a. segmento r = seg} \<union> natureza ` {r \<in> set b. segmento r = seg}
   \<and> distinct (map fst (comparacao_natureza a b))
   \<and> distinct (map fst (comparacao_motivo a b))
   \<and> distinct (map fst (naturezas_positivas seg a b))
   \<and> (\<forall>k \<in> natureza ` set a \<union> natureza ` set b.
         (k, int (count_list (map natureza a) k), int (count_list (map natureza b) k),
             int (count_list (map natureza a) k) - int (count_list (map natureza b) k))
         \<in> set (comparacao_natureza a b))
   \<and> (\<forall>k \<in> motivo ` set a \<union> motivo ` set b.
         (k, int (count_list (map motivo a) k), int (count_list (map motivo b) k),
             int (count_list (map motivo a) k) - int (count_list (map motivo b) k))
         \<in> set (comparacao_motivo a b))
   \<and> (\<forall>k \<in> natureza ` {r \<in> set a. segmento r = seg} \<union> natureza ` {r \<in> set b. segmento r = seg}.
         (k, int (count_list (map natureza (filter (\<lambda>r. segmento r = seg) a)) k)
             - int (count_list (map natureza (filter (\<lambda>r. segmento r = seg) b)) k))
         \<in> set (naturezas_positivas seg a b))
   \<and> (\<forall>k. k \<notin> natureza ` set b \<longrightarrow> count_list (map natureza b) k = 0)
   \<and> (\<forall>k. k \<notin> natureza ` set a \<longrightarrow> count_list (map natureza a) k = 0)
   \<and> (\<forall>k. k \<notin> motivo ` set b \<longrightarrow> count_list (map motivo b) k = 0)
   \<and> (\<forall>k. k \<notin> motivo ` set a \<longrightarrow> count_list (map motivo a) k = 0)"
proof -
  have s1: "set (map fst (comparacao_natureza a b)) = natureza ` set a \<union> natureza ` set b"
    unfolding comparacao_natureza_def keys_comparacao by simp
  have s2: "set (map fst (comparacao_motivo a b)) = motivo ` set a \<union> motivo ` set b"
    unfolding comparacao_motivo_def keys_comparacao by simp
  have s3: "set (map fst (naturezas_positivas seg a b))
       = natureza ` {r \<in> set a. segmento r = seg} \<union> natureza ` {r \<in> set b. segmento r = seg}"
    unfolding naturezas_positivas_def subtract_value_counts_index by simp
  have d1: "distinct (map fst (comparacao_natureza a b))"
    unfolding comparacao_natureza_def by (rule distinct_keys_comparacao)
  have d2: "distinct (map fst (comparacao_motivo a b))"
    unfolding comparacao_motivo_def by (rule distinct_keys_comparacao)
  have d3: "distinct (map fst (naturezas_positivas seg a b))"
    unfolding naturezas_positivas_def by (rule distinct_keys_subtract)
  have r1: "\<forall>k \<in> natureza ` set a \<union> natureza ` set b.
         (k, int (count_list (map natureza a) k), int (count_list (map natureza b) k),
             int (count_list (map natureza a) k) - int (count_list (map natureza b) k))
         \<in> set (comparacao_natureza a b)"
    unfolding comparacao_natureza_def
    using comparacao_row_present[of _ "map natureza a" "map natureza b"] by simp
  have r2: "\<forall>k \<in> motivo ` set a \<union> motivo ` set b.
         (k, int (count_list (map motivo a) k), int (count_list (map motivo b) k),
             int (count_list (map motivo a) k) - int (count_list (map motivo b) k))
         \<in> set (comparacao_motivo a b)"
    unfolding comparacao_motivo_def
    using comparacao_row_present[of _ "map motivo a" "map motivo b"] by simp
  have r3: "\<forall>k \<in> natureza ` {r \<in> set a. segmento r = seg} \<union> natureza ` {r \<in> set b. segmento r = seg}.
         (k, int (count_list (map natureza (filter (\<lambda>r. segmento r = seg) a)) k)
             - int (count_list (map natureza (filter (\<lambda>r. segmento r = seg) b)) k))
         \<in> set (naturezas_positivas seg a b)"
    unfolding naturezas_positivas_def
    using subtract_row_present[of _ "map natureza (filter (\<lambda>r. segmento r = seg) a)"
                                   "map natureza (filter (\<lambda>r. segmento r = seg) b)"]
    by simp
  have z: "\<And>f (c :: reclamacao list). \<forall>k. k \<notin> f ` set c \<longrightarrow> count_list (map f c) k = (0::nat)"
    by (simp add: count_list_0_iff)
  show ?thesis
    using s1 s2 s3 d1 d2 d3 r1 r2 r3 z[of natureza b] z[of natureza a] z[of motivo b] z[of motivo a]
    by blast
qed


section \<open>Properties of the ranking\<close>

lemma analisar_variacao_returns: "\<exists>p d. analisar_variacao_np x y = Inr (p, d)"
  by (simp add: analisar_variacao_np_def analisar_variacao_com_def Let_def)

lemma traverse_total:
  "(\<And>x. x \<in> set xs \<Longrightarrow> \<exists>y. f x = Inr y \<and> Q x y)
   \<Longrightarrow> \<exists>ys. traverse f xs = Inr ys \<and> list_all2 Q xs ys"
proof (induction xs)
  case Nil
  show ?case by simp
next
  case (Cons x xs)
  from Cons.prems[of x] obtain y where y: "f x = Inr y" "Q x y" by auto
  from Cons.IH Cons.prems obtain ys where ys: "traverse f xs = Inr ys" "list_all2 Q xs ys"
    by auto
  show ?case using y ys by simp
qed

lemma motivos_relacionados_returns:
  "\<exists>ms. motivos_relacionados sa sb n = Inr ms
        \<and> list_all2 (\<lambda>kc row. \<exists>v d. row = (fst kc, get0 (value_counts (map motivo (filter (\<lambda>r. natureza r = n) sb))) (fst kc), snd kc, v)
                        \<and> analisar_variacao_np (snd kc) (get0 (value_counts (map motivo (filter (\<lambda>r. natureza r = n) sb))) (fst kc)) = Inr (v, d))
            (value_counts (map motivo (filter (\<lambda>r. natureza r = n) sa))) ms"
  unfolding motivos_relacionados_def Let_def
proof (rule traverse_total)
  fix x :: "string \<times> int"
  let ?cb = "get0 (value_counts (map motivo (filter (\<lambda>r. natureza r = n) sb))) (fst x)"
  obtain p d where pd: "analisar_variacao_np (snd x) ?cb = Inr (p, d)"
    using analisar_variacao_returns by blast
  show "\<exists>y. (case x of (mo, count_atual) \<Rightarrow>
               case analisar_variacao_np count_atual (get0 (value_counts (map motivo (filter (\<lambda>r. natureza r = n) sb))) mo) of
                 Inl e \<Rightarrow> Inl e
               | Inr (var_motivo, _) \<Rightarrow> Inr (mo, get0 (value_counts (map motivo (filter (\<lambda>r. natureza r = n) sb))) mo, count_atual, var_motivo)) = Inr y
            \<and> (\<exists>v d. y = (fst x, ?cb, snd x, v) \<and> analisar_variacao_np (snd x) ?cb = Inr (v, d))"
    using pd by (cases x) auto
qed

lemma expander_returns:
  "\<exists>e. expander sa sb nv = Inr e \<and> det_natureza e = fst nv \<and> det_variacao e = snd nv"
proof -
  obtain ms where "motivos_relacionados sa sb (fst nv) = Inr ms"
    using motivos_relacionados_returns by blast
  then show ?thesis by (simp add: expander_def)
qed

lemma traverse_expander:
  "\<exists>es. traverse (expander sa sb) nvs = Inr es
        \<and> map det_natureza es = map fst nvs \<and> map det_variacao es = map snd nvs"
proof -
  obtain es where es: "traverse (expander sa sb) nvs = Inr es"
      "list_all2 (\<lambda>nv e. det_natureza e = fst nv \<and> det_variacao e = snd nv) nvs es"
    using traverse_total[of nvs "expander sa sb"
            "\<lambda>nv e. det_natureza e = fst nv \<and> det_variacao e = snd nv"] expander_returns
    by blast
  from es(2) have "map det_natureza es = map fst nvs \<and> map det_variacao es = map snd nvs"
    by (induction rule: list_all2_induct) auto
  then show ?thesis using es(1) by blast
qed

lemma sorted_reducao: "sorted (map snd (filter P (nsmallest n s)))"
proof -
  have "sorted (map snd (sort_key snd s))" by (rule sorted_sort_key)
  then have "sorted (take n (map snd (sort_key snd s)))" by (rule sorted_wrt_take)
  then have "sorted (map snd (nsmallest n s))" by (simp add: nsmallest_def take_map)
  then show ?thesis by (rule sorted_filter)
qed

lemma sorted_aumento: "sorted_wrt (\<lambda>x y. y \<le> x) (map snd (filter P (nlargest n (s :: (string \<times> int) list))))"
proof -
  let ?g = "\<lambda>(k :: string, v :: int). - v"
  have "sorted (map ?g (sort_key ?g s))" by (rule sorted_sort_key)
  then have "sorted (take n (map ?g (sort_key ?g s)))" by (rule sorted_wrt_take)
  then have "sorted (map ?g (nlargest n s))" by (simp add: nlargest_def take_map)
  then have "sorted (map ?g (filter P (nlargest n s)))" by (rule sorted_filter)
  then show ?thesis by (simp add: sorted_wrt_map split_def)
qed

lemma length_top: "length (filter P (nsmallest 5 s)) \<le> 5" "length (filter P (nlargest 5 s)) \<le> 5"
proof -
  have "length (filter P (nsmallest 5 s)) \<le> length (nsmallest 5 s)" by (rule length_filter_le)
  also have "\<dots> \<le> 5" by (simp add: nsmallest_def)
  finally show "length (filter P (nsmallest 5 s)) \<le> 5" .
  have "length (filter P (nlargest 5 s)) \<le> length (nlargest 5 s)" by (rule length_filter_le)
  also have "\<dots> \<le> 5" by (simp add: nlargest_def)
  finally show "length (filter P (nlargest 5 s)) \<le> 5" .
qed

lemma top_subset:
  "set (filter P (nsmallest n s)) \<subseteq> set s" "set (filter P (nlargest n s)) \<subseteq> set s"
  using set_take_subset[of n "sort_key snd s"] set_take_subset[of n "sort_key (\<lambda>(k, v). - v) s"]
  by (auto simp: nsmallest_def nlargest_def)

lemma entries_from_pairs:
  assumes "map det_natureza es = map fst nvs" and "map det_variacao es = map snd nvs"
    and "e \<in> set es"
  shows "(det_natureza e, det_variacao e) \<in> set nvs"
proof -
  from assms(3) obtain i where i: "i < length es" "es ! i = e" by (auto simp: in_set_conv_nth)
  have len: "length es = length nvs" using assms(1) by (metis length_map)
  have "det_natureza e = fst (nvs ! i)" using assms(1) i len by (metis nth_map)
  moreover have "det_variacao e = snd (nvs ! i)" using assms(2) i len by (metis nth_map)
  ultimately have "(det_natureza e, det_variacao e) = nvs ! i" by simp
  then show ?thesis using i len by simp
qed


lemma ranked_entries:
  assumes sub: "set nvs \<subseteq> set (naturezas_positivas seg a b)"
  shows "\<exists>es. traverse (expander (filter (\<lambda>r. segmento r = seg) a)
                                (filter (\<lambda>r. segmento r = seg) b)) nvs = Inr es
          \<and> length es = length nvs
          \<and> map det_variacao es = map snd nvs
          \<and> (\<forall>e \<in> set es. (det_natureza e, det_variacao e) \<in> set nvs
                \<and> det_variacao e
                  = int (count_list (map natureza (filter (\<lambda>r. segmento r = seg) a)) (det_natureza e))
                    - int (count_list (map natureza (filter (\<lambda>r. segmento r = seg) b)) (det_natureza e)))"
proof -
  obtain es where es: "traverse (expander (filter (\<lambda>r. segmento r = seg) a)
                                (filter (\<lambda>r. segmento r = seg) b)) nvs = Inr es"
      "map det_natureza es = map fst nvs" "map det_variacao es = map snd nvs"
    using traverse_expander by blast
  have len: "length es = length nvs" using es(2) by (metis length_map)
  have "\<forall>e \<in> set es. (det_natureza e, det_variacao e) \<in> set nvs
                \<and> det_variacao e
                  = int (count_list (map natureza (filter (\<lambda>r. segmento r = seg) a)) (det_natureza e))
                    - int (count_list (map natureza (filter (\<lambda>r. segmento r = seg) b)) (det_natureza e))"
  proof
    fix e assume "e \<in> set es"
    then have m: "(det_natureza e, det_variacao e) \<in> set nvs"
      using entries_from_pairs[OF es(2) es(3)] by blast
    then have "(det_natureza e, det_variacao e) \<in> set (naturezas_positivas seg a b)"
      using sub by blast
    then show "(det_natureza e, det_variacao e) \<in> set nvs
                \<and> det_variacao e
                  = int (count_list (map natureza (filter (\<lambda>r. segmento r = seg) a)) (det_natureza e))
                    - int (count_list (map natureza (filter (\<lambda>r. segmento r = seg) b)) (det_natureza e))"
      using m unfolding naturezas_positivas_def by (auto dest: subtract_value_counts_rows)
  qed
  then show ?thesis using es(1) es(3) len by blast
qed

text \<open>
  C6. For every segment both ranked lists are produced without raising. The list of
  reductions has at most 5 entries, each with a strictly negative variation, in
  ascending order of variation; the list of increases has at most 5 entries, each with
  a strictly positive variation, in descending order. The variation of an entry is the
  count of its nature in the segment's current subset minus that in the reference
  subset, so no entry has variation 0.
\<close>

theorem top5_reducao_aumento:
  "\<exists>red aum.
      naturezas_reducao seg a b = Inr red \<and> naturezas_aumento seg a b = Inr aum
    \<and> length red \<le> 5 \<and> (\<forall>e \<in> set red. det_variacao e < 0) \<and> sorted (map det_variacao red)
    \<and> length aum \<le> 5 \<and> (\<forall>e \<in> set aum. 0 < det_variacao e)
    \<and> sorted_wrt (\<lambda>x y. y \<le> x) (map det_variacao aum)
    \<and> (\<forall>e \<in> set red \<union> set aum.
          det_variacao e
            = int (count_list (map natureza (filter (\<lambda>r. segmento r = seg) a)) (det_natureza e))
              - int (count_list (map natureza (filter (\<lambda>r. segmento r = seg) b)) (det_natureza e)))"
proof -
  let ?np = "naturezas_positivas seg a b"
  let ?lo = "filter (\<lambda>(n, variacao). variacao < 0) (nsmallest 5 ?np)"
  let ?hi = "filter (\<lambda>(n, variacao). variacao > 0) (nlargest 5 ?np)"
  have sub1: "set ?lo \<subseteq> set ?np" by (rule top_subset(1))
  have sub2: "set ?hi \<subseteq> set ?np" by (rule top_subset(2))
  obtain red where red: "naturezas_reducao seg a b = Inr red" "length red = length ?lo"
      "map det_variacao red = map snd ?lo"
      "\<forall>e \<in> set red. (det_natureza e, det_variacao e) \<in> set ?lo
          \<and> det_variacao e
            = int (count_list (map natureza (filter (\<lambda>r. segmento r = seg) a)) (det_natureza e))
              - int (count_list (map natureza (filter (\<lambda>r. segmento r = seg) b)) (det_natureza e))"
    using ranked_entries[OF sub1] unfolding naturezas_reducao_def by blast
  obtain aum where aum: "naturezas_aumento seg a b = Inr aum" "length aum = length ?hi"
      "map det_variacao aum = map snd ?hi"
      "\<forall>e \<in> set aum. (det_natureza e, det_variacao e) \<in> set ?hi
          \<and> det_variacao e
            = int (count_list (map natureza (filter (\<lambda>r. segmento r = seg) a)) (det_natureza e))
              - int (count_list (map natureza (filter (\<lambda>r. segmento r = seg) b)) (det_natureza e))"
    using ranked_entries[OF sub2] unfolding naturezas_aumento_def by blast
  have l1: "length red \<le> 5" using red(2) length_top(1)[of _ ?np] by simp
  have l2: "length aum \<le> 5" using aum(2) length_top(2)[of _ ?np] by simp
  have n1: "\<forall>e \<in> set red. det_variacao e < 0" using red(4) by auto
  have n2: "\<forall>e \<in> set aum. 0 < det_variacao e" using aum(4) by auto
  have s1: "sorted (map det_variacao red)" unfolding red(3) by (rule sorted_reducao)
  have s2: "sorted_wrt (\<lambda>x y. y \<le> x) (map det_variacao aum)"
    unfolding aum(3) by (rule sorted_aumento)
  have dl: "\<forall>e \<in> set red \<union> set aum.
          det_variacao e
            = int (count_list (map natureza (filter (\<lambda>r. segmento r = seg) a)) (det_natureza e))
              - int (count_list (map natureza (filter (\<lambda>r. segmento r = seg) b)) (det_natureza e))"
    using red(4) aum(4) by blast
  show ?thesis using red(1) aum(1) l1 l2 n1 n2 s1 s2 dl by blast
qed

section \<open>Properties of the reason breakdown\<close>

lemma value_counts_entry:
  "(k, c) \<in> set (value_counts xs) \<Longrightarrow> k \<in> set xs \<and> c = int (count_list xs k)"
  by (auto simp: value_counts_def set_unique)

lemma traverse_source:
  "traverse f xs = Inr ys \<Longrightarrow> y \<in> set ys \<Longrightarrow> \<exists>x \<in> set xs. f x = Inr y"
proof (induction xs arbitrary: ys)
  case Nil
  then show ?case by simp
next
  case (Cons x xs)
  then show ?case by (auto split: sum.splits)
qed

lemma expander_motivos:
  "expander sa sb nv = Inr e
   \<Longrightarrow> det_natureza e = fst nv \<and> motivos_relacionados sa sb (fst nv) = Inr (det_motivos e)"
  by (auto simp: expander_def split: sum.splits)

lemma motivos_relacionados_rows:
  assumes "motivos_relacionados sa sb n = Inr ms"
  shows "map fst ms = map fst (value_counts (map motivo (filter (\<lambda>r. natureza r = n) sa)))"
    and "(mo, cb, ca, v) \<in> set ms \<Longrightarrow>
           ca = int (count_list (map motivo (filter (\<lambda>r. natureza r = n) sa)) mo)
         \<and> cb = int (count_list (map motivo (filter (\<lambda>r. natureza r = n) sb)) mo)
         \<and> (\<exists>d. analisar_variacao_np ca cb = Inr (v, d))"
proof -
  let ?va = "value_counts (map motivo (filter (\<lambda>r. natureza r = n) sa))"
  let ?vb = "value_counts (map motivo (filter (\<lambda>r. natureza r = n) sb))"
  let ?Q = "\<lambda>kc row. \<exists>v d. row = (fst kc, get0 ?vb (fst kc), snd kc, v)
                        \<and> analisar_variacao_np (snd kc) (get0 ?vb (fst kc)) = Inr (v, d)"
  from motivos_relacionados_returns[of sa sb n] assms
  have la: "list_all2 ?Q ?va ms" by auto
  then have len: "length ?va = length ms" by (rule list_all2_lengthD)
  have nth: "\<And>i. i < length ms \<Longrightarrow> ?Q (?va ! i) (ms ! i)"
    using la len by (simp add: list_all2_conv_all_nth)
  show "map fst ms = map fst ?va"
  proof (rule nth_equalityI)
    show "length (map fst ms) = length (map fst ?va)" using len by simp
  next
    fix i assume "i < length (map fst ms)"
    then have i: "i < length ms" by simp
    from nth[OF i] have "fst (ms ! i) = fst (?va ! i)" by auto
    then show "map fst ms ! i = map fst ?va ! i" using i len by simp
  qed
  assume "(mo, cb, ca, v) \<in> set ms"
  then obtain i where i: "i < length ms" "ms ! i = (mo, cb, ca, v)"
    by (auto simp: in_set_conv_nth)
  from nth[OF i(1)] i(2) obtain d where row: "mo = fst (?va ! i)" "cb = get0 ?vb mo"
      "ca = snd (?va ! i)" "analisar_variacao_np ca cb = Inr (v, d)"
    by auto
  have "(mo, ca) \<in> set ?va" using row(1,3) i(1) len by (metis nth_mem prod.collapse)
  then have "ca = int (count_list (map motivo (filter (\<lambda>r. natureza r = n) sa)) mo)"
    by (auto dest: value_counts_entry)
  moreover have "cb = int (count_list (map motivo (filter (\<lambda>r. natureza r = n) sb)) mo)"
    using row(2) by (simp add: get0_value_counts)
  ultimately show "ca = int (count_list (map motivo (filter (\<lambda>r. natureza r = n) sa)) mo)
         \<and> cb = int (count_list (map motivo (filter (\<lambda>r. natureza r = n) sb)) mo)
         \<and> (\<exists>d. analisar_variacao_np ca cb = Inr (v, d))"
    using row(4) by blast
qed

lemma ranked_entry_motivos:
  assumes "naturezas_reducao seg a b = Inr red" and "naturezas_aumento seg a b = Inr aum"
    and "e \<in> set red \<union> set aum"
  shows "motivos_relacionados (filter (\<lambda>r. segmento r = seg) a)
           (filter (\<lambda>r. segmento r = seg) b) (det_natureza e) = Inr (det_motivos e)"
proof -
  let ?f = "expander (filter (\<lambda>r. segmento r = seg) a) (filter (\<lambda>r. segmento r = seg) b)"
  have "\<exists>nv. ?f nv = Inr e"
  proof (cases "e \<in> set red")
    case True
    from traverse_source[OF assms(1)[unfolded naturezas_reducao_def] True]
    show ?thesis by blast
  next
    case False
    then have "e \<in> set aum" using assms(3) by simp
    from traverse_source[OF assms(2)[unfolded naturezas_aumento_def] this]
    show ?thesis by blast
  qed
  then show ?thesis by (auto dest: expander_motivos)
qed

text \<open>
  C7, amended. For every nature in a segment's list of reductions or of increases, the
  reason breakdown has exactly one line for every reason present among the
  current-period records of that nature in the segment, and for no other reason: a
  reason present only in the reference period is not listed. Each line carries the
  reason's count in the current period, its count in the reference period (0 when the
  reference period does not have it) and the percentage that the variation calculator
  returns for the two counts.
\<close>

theorem motivos_do_periodo_atual:
  assumes "naturezas_reducao seg a b = Inr red" and "naturezas_aumento seg a b = Inr aum"
    and "e \<in> set red \<union> set aum"
  shows "set (map fst (det_motivos e))
           = motivo ` {r \<in> set a. segmento r = seg \<and> natureza r = det_natureza e}
       \<and> distinct (map fst (det_motivos e))
       \<and> (\<forall>(mo, cb, ca, v) \<in> set (det_motivos e).
             ca = int (count_list (map motivo (filter (\<lambda>r. natureza r = det_natureza e)
                                        (filter (\<lambda>r. segmento r = seg) a))) mo)
           \<and> cb = int (count_list (map motivo (filter (\<lambda>r. natureza r = det_natureza e)
                                        (filter (\<lambda>r. segmento r = seg) b))) mo)
           \<and> (\<exists>d. analisar_variacao_np ca cb = Inr (v, d)))"
proof -
  let ?sa = "filter (\<lambda>r. segmento r = seg) a" and ?sb = "filter (\<lambda>r. segmento r = seg) b"
  have m: "motivos_relacionados ?sa ?sb (det_natureza e) = Inr (det_motivos e)"
    using assms by (rule ranked_entry_motivos)
  have keys: "map fst (det_motivos e)
      = map fst (value_counts (map motivo (filter (\<lambda>r. natureza r = det_natureza e) ?sa)))"
    using motivos_relacionados_rows(1)[OF m] .
  have k1: "set (map fst (det_motivos e))
           = motivo ` {r \<in> set a. segmento r = seg \<and> natureza r = det_natureza e}"
    unfolding keys keys_value_counts by auto
  have k2: "distinct (map fst (det_motivos e))"
    unfolding keys by (rule distinct_keys_value_counts)
  have k3: "\<forall>(mo, cb, ca, v) \<in> set (det_motivos e).
             ca = int (count_list (map motivo (filter (\<lambda>r. natureza r = det_natureza e) ?sa)) mo)
           \<and> cb = int (count_list (map motivo (filter (\<lambda>r. natureza r = det_natureza e) ?sb)) mo)
           \<and> (\<exists>d. analisar_variacao_np ca cb = Inr (v, d))"
    using motivos_relacionados_rows(2)[OF m] by blast
  show ?thesis using k1 k2 k3 by blast
qed

section \<open>The analysis on the sample data\<close>

lemma ranking_reducao_value:
  "naturezas_reducao ''A'' ranking_atual ranking_anterior = Inr [det_P, det_Q]"
  by code_simp

lemma ranking_aumento_value:
  "naturezas_aumento ''A'' ranking_atual ranking_anterior = Inr [det_S]"
  by code_simp

theorem chaves_agregadas_witness:
  "''P'' \<in> natureza ` set ranking_atual \<union> natureza ` set ranking_anterior
   \<and> ''P'' \<notin> natureza ` set ranking_atual
   \<and> (''P'', 0, 3, - 3) \<in> set (comparacao_natureza ranking_atual ranking_anterior)"
proof -
  have k: "''P'' \<in> natureza ` set ranking_atual \<union> natureza ` set ranking_anterior"
    by (simp add: ranking_atual_def ranking_anterior_def dados_ranking_def periodo_def
                  rec_exemplo_def)
  have n: "''P'' \<notin> natureza ` set ranking_atual"
    by (simp add: ranking_atual_def dados_ranking_def periodo_def rec_exemplo_def)
  have c1: "int (count_list (map natureza ranking_atual) ''P'') = 0"
    by (simp add: ranking_atual_def dados_ranking_def periodo_def rec_exemplo_def)
  have c2: "int (count_list (map natureza ranking_anterior) ''P'') = 3"
    by (simp add: ranking_anterior_def dados_ranking_def periodo_def rec_exemplo_def)
  have "\<forall>k \<in> natureza ` set ranking_atual \<union> natureza ` set ranking_anterior.
         (k, int (count_list (map natureza ranking_atual) k),
             int (count_list (map natureza ranking_anterior) k),
             int (count_list (map natureza ranking_atual) k)
               - int (count_list (map natureza ranking_anterior) k))
         \<in> set (comparacao_natureza ranking_atual ranking_anterior)"
    by (rule chaves_agregadas[of ranking_atual ranking_anterior "''A''",
              THEN conjunct2, THEN conjunct2, THEN conjunct2, THEN conjunct2,
              THEN conjunct2, THEN conjunct2, THEN conjunct1])
  then have "(''P'', int (count_list (map natureza ranking_atual) ''P''),
               int (count_list (map natureza ranking_anterior) ''P''),
               int (count_list (map natureza ranking_atual) ''P'')
                 - int (count_list (map natureza ranking_anterior) ''P''))
          \<in> set (comparacao_natureza ranking_atual ranking_anterior)"
    using k by (rule bspec)
  then have "(''P'', 0, 3, - 3) \<in> set (comparacao_natureza ranking_atual ranking_anterior)"
    unfolding c1 c2 by simp
  then show ?thesis using k n by (intro conjI)
qed

theorem top5_reducao_aumento_witness:
  "naturezas_reducao ''A'' ranking_atual ranking_anterior = Inr [det_P, det_Q]
   \<and> naturezas_aumento ''A'' ranking_atual ranking_anterior = Inr [det_S]
   \<and> length [det_P, det_Q] \<le> 5
   \<and> det_variacao det_P < 0 \<and> det_variacao det_Q < 0
   \<and> sorted (map det_variacao [det_P, det_Q])
   \<and> length [det_S] \<le> 5
   \<and> 0 < det_variacao det_S
   \<and> sorted_wrt (\<lambda>x y. y \<le> x) (map det_variacao [det_S])"
proof -
  note r = ranking_reducao_value and u = ranking_aumento_value
  from top5_reducao_aumento[of "''A''" ranking_atual ranking_anterior]
  obtain red aum where h:
      "naturezas_reducao ''A'' ranking_atual ranking_anterior = Inr red"
      "naturezas_aumento ''A'' ranking_atual ranking_anterior = Inr aum"
      "length red \<le> 5" "\<forall>e \<in> set red. det_variacao e < 0" "sorted (map det_variacao red)"
      "length aum \<le> 5" "\<forall>e \<in> set aum. 0 < det_variacao e"
      "sorted_wrt (\<lambda>x y. y \<le> x) (map det_variacao aum)"
    by blast
  have red: "red = [det_P, det_Q]" using h(1) r by simp
  have aum: "aum = [det_S]" using h(2) u by simp
  have neg: "det_variacao det_P < 0 \<and> det_variacao det_Q < 0" using h(4) red by simp
  have pos: "0 < det_variacao det_S" using h(7) aum by simp
  show ?thesis using h(3,5,6,8) r u neg pos unfolding red aum by blast
qed

text \<open>
  C7, as stated, fails. In segment A of \<open>dados_ranking\<close> the nature Q is in the list
  of reductions; reason m3 occurs among the reference-period records of Q, and the
  breakdown of Q has no line for m3. The nature P, absent from the current period, gets
  no line at all.
\<close>

theorem motivos_so_anterior_counterexample:
  "naturezas_reducao ''A'' ranking_atual ranking_anterior = Inr [det_P, det_Q]
   \<and> det_natureza det_Q = ''Q''
   \<and> ''m3'' \<in> set (map motivo (filter (\<lambda>r. segmento r = ''A'' \<and> natureza r = ''Q'')
                                   ranking_anterior))
   \<and> ''m3'' \<notin> set (map fst (det_motivos det_Q))
   \<and> det_motivos det_P = []"
proof -
  have "''m3'' \<in> set (map motivo (filter (\<lambda>r. segmento r = ''A'' \<and> natureza r = ''Q'')
                                   ranking_anterior))"
    by (simp add: ranking_anterior_def dados_ranking_def periodo_def rec_exemplo_def)
  then show ?thesis using ranking_reducao_value by (simp add: det_Q_def det_P_def)
qed

theorem motivos_do_periodo_atual_witness:
  "naturezas_reducao ''A'' ranking_atual ranking_anterior = Inr [det_P, det_Q]
   \<and> naturezas_aumento ''A'' ranking_atual ranking_anterior = Inr [det_S]
   \<and> det_Q \<in> set [det_P, det_Q] \<union> set [det_S]
   \<and> set (map fst (det_motivos det_Q))
       = motivo ` {r \<in> set ranking_atual. segmento r = ''A'' \<and> natureza r = det_natureza det_Q}
   \<and> set (map fst (det_motivos det_Q)) = {''m1''}"
proof -
  note r = ranking_reducao_value and u = ranking_aumento_value
  have m: "det_Q \<in> set [det_P, det_Q] \<union> set [det_S]" by simp
  have "set (map fst (det_motivos det_Q))
       = motivo ` {r \<in> set ranking_atual. segmento r = ''A'' \<and> natureza r = det_natureza det_Q}"
    using motivos_do_periodo_atual[OF r u m] by blast
  moreover have "set (map fst (det_motivos det_Q)) = {''m1''}" by (simp add: det_Q_def)
  ultimately show ?thesis using r u m by blast
qed

text \<open>
  C1. The tables shown under a segment's heading are computed from the records of all
  segments: in \<open>dados_segmentos\<close> no record of segment A has nature Y, and the Procon
  and Geral nature tables under the heading of A have a row for Y with current count 1
  (the record of segment B). The tables under A and under B are the same.
\<close>

theorem analise_segmento_canal_mistura_segmentos:
  "analise_segmento_canal dados_segmentos
     (periodo dados_segmentos ''janeiro'' 2025) (periodo dados_segmentos ''janeiro'' 2024)
   = [(''A'',
       [(''Procon'', [(''X'', 1, 0, 1), (''Y'', 1, 0, 1)], [(''m1'', 1, 0, 1), (''m2'', 1, 0, 1)]),
        (''Ouvidoria'', [(''X'', 0, 2, - 2)], [(''m3'', 0, 2, - 2)]),
        (''Geral'', [(''X'', 1, 2, - 1), (''Y'', 1, 0, 1)],
                    [(''m1'', 1, 0, 1), (''m2'', 1, 0, 1), (''m3'', 0, 2, - 2)])]),
      (''B'',
       [(''Procon'', [(''X'', 1, 0, 1), (''Y'', 1, 0, 1)], [(''m1'', 1, 0, 1), (''m2'', 1, 0, 1)]),
        (''Ouvidoria'', [(''X'', 0, 2, - 2)], [(''m3'', 0, 2, - 2)]),
        (''Geral'', [(''X'', 1, 2, - 1), (''Y'', 1, 0, 1)],
                    [(''m1'', 1, 0, 1), (''m2'', 1, 0, 1), (''m3'', 0, 2, - 2)])])]
   \<and> ''Y'' \<notin> set (map natureza (filter (\<lambda>r. segmento r = ''A'') dados_segmentos))"
  by code_simp

section \<open>Properties of the filling loop\<close>

lemma estende_refl:
  "list_all (\<lambda>r. length r = length cols) rows \<Longrightarrow> estende {} (cols, rows) (cols, rows)"
  by (auto simp: estende_def list_all_length)

lemma desconhecido_not_NaN: "desconhecido \<noteq> NaN"
  by (simp add: desconhecido_def)

lemma estende_trans:
  assumes ab: "estende S a b" and bc: "estende T b c"
  shows "estende (S \<union> T) a c"
proof -
  have len: "length (snd c) = length (snd a)" "length (snd b) = length (snd a)"
    using ab bc by (auto simp: estende_def)
  have le: "length (fst a) \<le> length (fst b)" "length (fst b) \<le> length (fst c)"
    using ab bc by (auto simp: estende_def)
  have tk1: "take (length (fst a)) (fst b) = fst a" and tk2: "take (length (fst b)) (fst c) = fst b"
    using ab bc by (auto simp: estende_def)
  have tk: "take (length (fst a)) (fst c) = fst a"
  proof -
    have "take (length (fst a)) (fst c) = take (length (fst a)) (take (length (fst b)) (fst c))"
      using le by (simp add: min_def)
    then show ?thesis using tk1 tk2 by simp
  qed
  have nthb: "\<And>j. j < length (fst a) \<Longrightarrow> fst b ! j = fst a ! j"
    using tk1 by (metis nth_take)
  have sub: "S \<union> T \<subseteq> set (fst c)"
  proof -
    have "set (fst b) \<subseteq> set (fst c)" using tk2 by (metis set_take_subset)
    then show ?thesis using ab bc by (auto simp: estende_def)
  qed
  have rows: "\<forall>k < length (snd a).
            length (snd c ! k) = length (fst c)
          \<and> (\<forall>j < length (fst c).
                snd c ! k ! j =
                  (if j < length (fst a)
                   then (if fst a ! j \<in> S \<union> T \<and> snd a ! k ! j = NaN then desconhecido
                         else snd a ! k ! j)
                   else desconhecido))"
  proof (intro allI impI conjI)
    fix k assume k: "k < length (snd a)"
    then show "length (snd c ! k) = length (fst c)" using bc len by (simp add: estende_def)
  next
    fix k j assume k: "k < length (snd a)" and j: "j < length (fst c)"
    have kb: "k < length (snd b)" using k len by simp
    have cj: "snd c ! k ! j =
                  (if j < length (fst b)
                   then (if fst b ! j \<in> T \<and> snd b ! k ! j = NaN then desconhecido
                         else snd b ! k ! j)
                   else desconhecido)"
      using bc kb j by (simp add: estende_def)
    show "snd c ! k ! j =
                  (if j < length (fst a)
                   then (if fst a ! j \<in> S \<union> T \<and> snd a ! k ! j = NaN then desconhecido
                         else snd a ! k ! j)
                   else desconhecido)"
    proof (cases "j < length (fst b)")
      case False
      then show ?thesis using cj le by simp
    next
      case True
      have bj: "snd b ! k ! j =
                  (if j < length (fst a)
                   then (if fst a ! j \<in> S \<and> snd a ! k ! j = NaN then desconhecido
                         else snd a ! k ! j)
                   else desconhecido)"
        using ab k True by (simp add: estende_def)
      show ?thesis
      proof (cases "j < length (fst a)")
        case False
        then show ?thesis using cj bj True desconhecido_not_NaN by simp
      next
        case ja: True
        then show ?thesis using cj bj True nthb[OF ja] desconhecido_not_NaN by auto
      qed
    qed
  qed
  show ?thesis unfolding estende_def using len le tk sub rows by simp
qed


lemma estende_retangular:
  "estende S a b \<Longrightarrow> list_all (\<lambda>r. length r = length (fst b)) (snd b)"
  by (simp add: estende_def list_all_length)

lemma estende_preencher:
  assumes rect: "list_all (\<lambda>r. length r = length cols) rows"
  shows "estende {col} (cols, rows) (preencher col (cols, rows))"
proof (cases "col \<in> set cols")
  case True
  have r: "\<And>k. k < length rows \<Longrightarrow> length (rows ! k) = length cols"
    using rect by (simp add: list_all_length)
  show ?thesis
    using True r by (auto simp: estende_def preencher_def)
next
  case False
  have r: "\<And>k. k < length rows \<Longrightarrow> length (rows ! k) = length cols"
    using rect by (simp add: list_all_length)
  have nin: "\<And>j. j < length cols \<Longrightarrow> cols ! j \<noteq> col"
    using False by (metis nth_mem)
  show ?thesis
    using False r nin by (auto simp: estende_def preencher_def nth_append)
qed

lemma estende_criar_fato_gerador:
  assumes rect: "list_all (\<lambda>r. length r = length cols) rows"
  shows "estende {} (cols, rows) (criar_fato_gerador (cols, rows))"
proof (cases "''fato_gerador_fato_gerador'' \<in> set cols")
  case True
  then show ?thesis using estende_refl[OF rect] by (simp add: criar_fato_gerador_def)
next
  case False
  have r: "\<And>k. k < length rows \<Longrightarrow> length (rows ! k) = length cols"
    using rect by (simp add: list_all_length)
  show ?thesis
    using False r by (auto simp: estende_def criar_fato_gerador_def nth_append)
qed

lemma estende_step:
  assumes "estende S a b"
  shows "estende (S \<union> {col}) a (preencher col b)"
proof -
  have "list_all (\<lambda>r. length r = length (fst b)) (snd b)"
    using assms by (rule estende_retangular)
  then have "estende {col} (fst b, snd b) (preencher col (fst b, snd b))"
    by (rule estende_preencher)
  then have "estende {col} b (preencher col b)" by simp
  from estende_trans[OF assms this] show ?thesis .
qed

lemma estende_final:
  assumes rect: "list_all (\<lambda>r. length r = length cols) rows"
  shows "estende (set colunas_categoricas) (cols, rows)
           (criar_fato_gerador (fold preencher colunas_categoricas (cols, rows)))"
proof -
  have S: "set colunas_categoricas = {''segmento'', ''ds_canal'', ''natureza'', ''motivo''}"
    by (simp add: colunas_categoricas_def)
  have F: "fold preencher colunas_categoricas (cols, rows)
           = preencher ''motivo'' (preencher ''natureza'' (preencher ''ds_canal''
                 (preencher ''segmento'' (cols, rows))))"
    by (simp add: colunas_categoricas_def)
  let ?a = "(cols, rows)"
  have e0: "estende {} ?a ?a" using rect by (rule estende_refl)
  have e1: "estende {''segmento''} ?a (preencher ''segmento'' ?a)"
    using estende_step[OF e0, of "''segmento''"] by simp
  have e2: "estende {''segmento'', ''ds_canal''} ?a
              (preencher ''ds_canal'' (preencher ''segmento'' ?a))"
    using estende_step[OF e1, of "''ds_canal''"] by (simp add: insert_commute)
  have e3: "estende {''segmento'', ''ds_canal'', ''natureza''} ?a
              (preencher ''natureza'' (preencher ''ds_canal'' (preencher ''segmento'' ?a)))"
    using estende_step[OF e2, of "''natureza''"] by (simp add: insert_commute)
  have e4: "estende {''segmento'', ''ds_canal'', ''natureza'', ''motivo''} ?a
              (preencher ''motivo'' (preencher ''natureza'' (preencher ''ds_canal''
                 (preencher ''segmento'' ?a))))"
    using estende_step[OF e3, of "''motivo''"] by (simp add: insert_commute)
  let ?b = "preencher ''motivo'' (preencher ''natureza'' (preencher ''ds_canal''
                 (preencher ''segmento'' ?a)))"
  have "list_all (\<lambda>r. length r = length (fst ?b)) (snd ?b)"
    using e4 by (rule estende_retangular)
  then have "estende {} (fst ?b, snd ?b) (criar_fato_gerador (fst ?b, snd ?b))"
    by (rule estende_criar_fato_gerador)
  then have "estende ({''segmento'', ''ds_canal'', ''natureza'', ''motivo''} \<union> {}) ?a
               (criar_fato_gerador ?b)"
    using estende_trans[OF e4] by simp
  then show ?thesis unfolding S F by simp
qed


lemma length_nomes_colunas: "length (nomes_colunas cols) = length cols"
  by (simp add: nomes_colunas_def Let_def)

lemma posicoes_single:
  "posicoes c cols = [i] \<Longrightarrow> i < length cols \<and> cols ! i = c"
proof -
  assume "posicoes c cols = [i]"
  then have "i \<in> set (filter (\<lambda>i. cols ! i = c) [0..<length cols])"
    by (simp add: posicoes_def)
  then show ?thesis by simp
qed

lemma coluna_unica_Inr:
  "coluna_unica c dup cols = Inr i \<Longrightarrow> posicoes c cols = [i]"
  by (auto simp: coluna_unica_def split: list.splits)

lemma converter_ano_Inr:
  "converter_ano num i rows = Inr rows1
   \<Longrightarrow> rows1 = map (\<lambda>r. r[i := to_numeric num (r ! i)]) rows"
  by (auto simp: converter_ano_def split: if_splits)

lemma converter_mes_Inr:
  "converter_mes i rows = Inr rows2 \<Longrightarrow> rows2 = map (\<lambda>r. r[i := canon_mes (r ! i)]) rows"
  by (auto simp: converter_mes_def split: if_splits)

lemma processar_dados_try_Inr:
  assumes ok: "processar_dados_try num df = Inr out" and rect: "retangular df"
  shows "\<exists>i_ano i_mes.
           posicoes ''ano'' (nomes_colunas (columns df)) = [i_ano]
         \<and> posicoes ''mes'' (nomes_colunas (columns df)) = [i_mes]
         \<and> estende (set colunas_categoricas)
              (nomes_colunas (columns df),
               map (convertida num i_mes i_ano) (filter (retida num i_mes i_ano) (linhas df)))
              (columns out, linhas out)"
proof -
  let ?cols = "nomes_colunas (columns df)"
  from ok obtain i_ano where ia: "coluna_unica ''ano'' TypeError ?cols = Inr i_ano"
    by (auto simp: processar_dados_try_def Let_def split: sum.splits)
  from ok ia obtain rows1 where r1: "converter_ano num i_ano (linhas df) = Inr rows1"
    by (auto simp: processar_dados_try_def Let_def split: sum.splits)
  from ok ia r1 obtain i_mes where im: "coluna_unica ''mes'' AttributeError ?cols = Inr i_mes"
    by (auto simp: processar_dados_try_def Let_def split: sum.splits)
  from ok ia r1 im obtain rows2 where r2: "converter_mes i_mes rows1 = Inr rows2"
    by (auto simp: processar_dados_try_def Let_def split: sum.splits)
  let ?rows3 = "dropna_mes_ano i_mes i_ano rows2"
  let ?final = "criar_fato_gerador
                  (fold preencher colunas_categoricas (?cols, ?rows3))"
  have out: "out = \<lparr>columns = fst ?final, linhas = snd ?final\<rparr>"
    using ok ia r1 im r2 by (simp add: processar_dados_try_def Let_def)
  have pa: "posicoes ''ano'' ?cols = [i_ano]" using ia by (rule coluna_unica_Inr)
  have pm: "posicoes ''mes'' ?cols = [i_mes]" using im by (rule coluna_unica_Inr)
  have ja: "i_ano < length ?cols" "?cols ! i_ano = ''ano''" using posicoes_single[OF pa] by auto
  have jm: "i_mes < length ?cols" "?cols ! i_mes = ''mes''" using posicoes_single[OF pm] by auto
  have ne: "i_ano \<noteq> i_mes" using ja(2) jm(2) by auto
  have len: "\<And>r. r \<in> set (linhas df) \<Longrightarrow> length r = length ?cols"
    using rect by (simp add: retangular_def list_all_iff length_nomes_colunas)
  have rows2: "rows2 = map (\<lambda>r. (r[i_ano := to_numeric num (r ! i_ano)])[i_mes := canon_mes (r ! i_mes)])
                          (linhas df)"
    using converter_ano_Inr[OF r1] converter_mes_Inr[OF r2] ne by (simp add: comp_def)
  have rows3: "?rows3 = map (convertida num i_mes i_ano) (filter (retida num i_mes i_ano) (linhas df))"
  proof -
    have "\<And>r. r \<in> set (linhas df) \<Longrightarrow>
            (convertida num i_mes i_ano r ! i_mes \<noteq> NaN \<and> convertida num i_mes i_ano r ! i_ano \<noteq> NaN)
            = retida num i_mes i_ano r"
      using len ja(1) jm(1) ne by (auto simp: convertida_def retida_def)
    then have "filter (\<lambda>r. convertida num i_mes i_ano r ! i_mes \<noteq> NaN
                          \<and> convertida num i_mes i_ano r ! i_ano \<noteq> NaN) (linhas df)
               = filter (retida num i_mes i_ano) (linhas df)"
      by (auto intro: filter_cong)
    then show ?thesis
      unfolding rows2 dropna_mes_ano_def
      by (simp add: filter_map comp_def convertida_def[abs_def])
  qed
  have rect3: "list_all (\<lambda>r. length r = length ?cols) ?rows3"
    unfolding rows3 using len by (auto simp: list_all_iff convertida_def)
  have "estende (set colunas_categoricas) (?cols, ?rows3) ?final"
    using rect3 by (rule estende_final)
  then have "estende (set colunas_categoricas)
              (?cols, map (convertida num i_mes i_ano) (filter (retida num i_mes i_ano) (linhas df)))
              (columns out, linhas out)"
    unfolding rows3 out by simp
  then show ?thesis using pa pm by blast
qed

section \<open>Properties of the text functions and of the month table\<close>

lemma caixa_lower: "caixa c d \<Longrightarrow> lower_chr d = d \<Longrightarrow> lower_chr c = d"
proof -
  assume cx: "caixa c d" and ld: "lower_chr d = d"
  show ?thesis
  proof (cases "c = d")
    case True
    then show ?thesis using ld by simp
  next
    case False
    then have m: "maiuscula (of_char c)" and e: "(of_char d :: nat) = of_char c + 32"
      using cx by (auto simp: caixa_def)
    have "lower_chr c = char_of (of_char c + 32 :: nat)" using m by (simp add: lower_chr_def)
    also have "\<dots> = char_of (of_char d :: nat)" using e by simp
    finally show ?thesis by simp
  qed
qed

lemma caixa_lower_chr: "caixa c (lower_chr c)"
  by (auto simp: caixa_def lower_chr_def maiuscula_def)

lemma isspace_lower_chr: "isspace (lower_chr c) = isspace c"
  by (auto simp: isspace_def lower_chr_def maiuscula_def Let_def)

lemma lower_chr_space: "isspace c \<Longrightarrow> lower_chr c = c"
  by (auto simp: isspace_def lower_chr_def maiuscula_def Let_def)

lemma strip_sandwich:
  assumes "list_all isspace a" and "list_all isspace b" and "n \<noteq> []"
    and "\<not> isspace (hd n)" and "\<not> isspace (last n)"
  shows "strip (a @ n @ b) = n"
proof -
  have d1: "dropWhile isspace (a @ n @ b) = n @ b"
    using assms(1,3,4) by (cases n) (auto simp: list_all_iff dropWhile_append)
  have "dropWhile isspace (rev (n @ b)) = dropWhile isspace (rev b @ rev n)" by simp
  also have "\<dots> = rev n"
    using assms(2,3,5) by (cases "rev n") (auto simp: list_all_iff dropWhile_append last_rev hd_rev)
  finally show ?thesis by (simp add: strip_def d1)
qed

lemma strip_decomp:
  "\<exists>a b. w = a @ strip w @ b \<and> list_all isspace a \<and> list_all isspace b"
proof -
  let ?a = "takeWhile isspace w" and ?w' = "dropWhile isspace w"
  let ?b = "rev (takeWhile isspace (rev ?w'))"
  have "rev ?w' = takeWhile isspace (rev ?w') @ dropWhile isspace (rev ?w')" by simp
  then have "?w' = rev (dropWhile isspace (rev ?w')) @ ?b"
    by (metis rev_append rev_rev_ident)
  then have "w = ?a @ strip w @ ?b" by (metis strip_def takeWhile_dropWhile_id)
  moreover have "list_all isspace ?a" by (auto simp: list_all_iff dest: set_takeWhileD)
  moreover have "list_all isspace ?b" by (auto simp: list_all_iff dest: set_takeWhileD)
  ultimately show ?thesis by blast
qed


lemma variante_iff:
  "variante v n \<longleftrightarrow>
     (\<exists>i \<le> length v. list_all isspace (take i v)
                 \<and> list_all2 caixa (take (length n) (drop i v)) n
                 \<and> list_all isspace (drop (i + length n) v))"
proof -
  have h: "\<And>P. list_ex P [0..<Suc (length v)] = (\<exists>i \<le> length v. P i)"
    by (simp add: list_ex_iff Bex_def less_Suc_eq_le del: upt_Suc)
  show ?thesis unfolding variante_def by (rule h)
qed

lemma map_lower_spaces: "list_all isspace xs \<Longrightarrow> map lower_chr xs = xs"
  by (induction xs) (auto simp: lower_chr_space)

lemma map_lower_caixa:
  "list_all2 caixa xs n \<Longrightarrow> list_all (\<lambda>d. lower_chr d = d) n \<Longrightarrow> map lower_chr xs = n"
  by (induction rule: list_all2_induct) (auto simp: caixa_lower)

lemma variante_strip_lower:
  assumes var: "variante v n" and ne: "n \<noteq> []"
    and low: "list_all (\<lambda>d. lower_chr d = d) n" and nsp: "list_all (\<lambda>d. \<not> isspace d) n"
  shows "strip (lower v) = n"
proof -
  from var obtain i where i: "i \<le> length v" "list_all isspace (take i v)"
      "list_all2 caixa (take (length n) (drop i v)) n"
      "list_all isspace (drop (i + length n) v)"
    unfolding variante_iff by blast
  let ?a = "take i v" and ?m = "take (length n) (drop i v)" and ?b = "drop (i + length n) v"
  have "drop i v = ?m @ drop (length n) (drop i v)" by (metis append_take_drop_id)
  also have "drop (length n) (drop i v) = ?b" by (simp add: add.commute)
  finally have "drop i v = ?m @ ?b" .
  then have v: "v = ?a @ ?m @ ?b" by (metis append_take_drop_id)
  have "lower v = map lower_chr ?a @ map lower_chr ?m @ map lower_chr ?b"
    unfolding lower_def by (subst v) simp
  then have lv: "lower v = ?a @ n @ ?b"
    using map_lower_spaces[OF i(2)] map_lower_spaces[OF i(4)] map_lower_caixa[OF i(3) low]
    by simp
  have h: "\<not> isspace (hd n)" and l: "\<not> isspace (last n)"
    using ne nsp by (auto simp: list_all_iff)
  show ?thesis unfolding lv using i(2) i(4) ne h l by (rule strip_sandwich)
qed

lemma lower_decomp_variante:
  assumes w: "map lower_chr v = a @ n @ b"
    and sa: "list_all isspace a" and sb: "list_all isspace b"
  shows "variante v n"
proof -
  let ?i = "length a"
  have lw: "length v = length a + (length n + length b)"
    using arg_cong[OF w, of length] by simp
  have i: "?i \<le> length v" using lw by simp
  have t1: "map lower_chr (take ?i v) = a"
    using arg_cong[OF w, of "take ?i"] by (simp add: take_map)
  have t2: "map lower_chr (take (length n) (drop ?i v)) = n"
    using arg_cong[OF w, of "\<lambda>xs. take (length n) (drop ?i xs)"] by (simp add: take_map drop_map)
  have t3: "map lower_chr (drop (?i + length n) v) = b"
    using arg_cong[OF w, of "drop (?i + length n)"] by (simp add: drop_map)
  have sp: "\<And>xs ys. map lower_chr xs = ys \<Longrightarrow> list_all isspace ys \<Longrightarrow> list_all isspace xs"
    by (auto simp: list_all_iff isspace_lower_chr)
  have c: "\<And>xs ys. map lower_chr xs = ys \<Longrightarrow> list_all2 caixa xs ys"
    by (auto simp: list_all2_conv_all_nth caixa_lower_chr)
  show ?thesis
    unfolding variante_iff
    using i sp[OF t1 sa] c[OF t2] sp[OF t3 sb] by blast
qed

lemma strip_lower_variante: "variante v (strip (lower v))"
proof -
  obtain a b where ab: "lower v = a @ strip (lower v) @ b" "list_all isspace a" "list_all isspace b"
    using strip_decomp[of "lower v"] by blast
  show ?thesis
    using lower_decomp_variante[OF ab(1)[unfolded lower_def] ab(2) ab(3)]
    by (simp add: lower_def)
qed


lemma nomes_minusculos:
  "list_all (\<lambda>n. n \<noteq> [] \<and> list_all (\<lambda>d. lower_chr d = d) n \<and> list_all (\<lambda>d. \<not> isspace d) n)
            (ORDEM_MESES @ ABREVIACOES)"
  by code_simp

lemma canon_tabela:
  "list_all (\<lambda>i. categorical (replace_meses (Str (ORDEM_MESES ! i))) = Str (ORDEM_MESES ! i)
               \<and> categorical (replace_meses (Str (ABREVIACOES ! i))) = Str (ORDEM_MESES ! i))
            [0..<12]"
  by code_simp

lemma length_nomes: "length ORDEM_MESES = 12" "length ABREVIACOES = 12"
  by (simp_all add: ORDEM_MESES_def ABREVIACOES_def meses_map_def)

lemma canon_mes_Str: "canon_mes (Str v) = categorical (replace_meses (Str (strip (lower v))))"
  by (simp add: canon_mes_def str_lower_def str_strip_def)

lemma canon_mes_variante:
  assumes i: "i < 12" and var: "variante v (ORDEM_MESES ! i) \<or> variante v (ABREVIACOES ! i)"
  shows "canon_mes (Str v) = Str (ORDEM_MESES ! i)"
proof -
  have tab: "categorical (replace_meses (Str (ORDEM_MESES ! i))) = Str (ORDEM_MESES ! i)"
            "categorical (replace_meses (Str (ABREVIACOES ! i))) = Str (ORDEM_MESES ! i)"
    using canon_tabela i by (simp_all add: list_all_iff)
  have mem: "ORDEM_MESES ! i \<in> set (ORDEM_MESES @ ABREVIACOES)"
            "ABREVIACOES ! i \<in> set (ORDEM_MESES @ ABREVIACOES)"
    using i length_nomes by simp_all
  have ok: "\<And>n. n \<in> set (ORDEM_MESES @ ABREVIACOES) \<Longrightarrow>
              n \<noteq> [] \<and> list_all (\<lambda>d. lower_chr d = d) n \<and> list_all (\<lambda>d. \<not> isspace d) n"
    using nomes_minusculos unfolding list_all_iff by blast
  from var show ?thesis
  proof
    assume v: "variante v (ORDEM_MESES ! i)"
    have "strip (lower v) = ORDEM_MESES ! i"
      using variante_strip_lower[OF v] ok[OF mem(1)] by blast
    then show ?thesis using tab(1) by (simp add: canon_mes_Str)
  next
    assume v: "variante v (ABREVIACOES ! i)"
    have "strip (lower v) = ABREVIACOES ! i"
      using variante_strip_lower[OF v] ok[OF mem(2)] by blast
    then show ?thesis using tab(2) by (simp add: canon_mes_Str)
  qed
qed

lemma canon_mes_not_NaN:
  assumes "canon_mes (Str v) \<noteq> NaN"
  shows "\<exists>i < 12. variante v (ORDEM_MESES ! i) \<or> variante v (ABREVIACOES ! i)"
proof -
  let ?t = "strip (lower v)"
  have var: "variante v ?t" by (rule strip_lower_variante)
  have c: "categorical (replace_meses (Str ?t)) \<noteq> NaN"
    using assms by (simp add: canon_mes_Str)
  have "?t \<in> set ABREVIACOES \<or> ?t \<in> set ORDEM_MESES"
  proof (cases "map_of meses_map ?t")
    case None
    then show ?thesis using c by (auto simp: replace_meses_def categorical_def split: if_splits)
  next
    case (Some full)
    then have "?t \<in> fst ` set meses_map" by (metis map_of_eq_None_iff option.distinct(1))
    then show ?thesis by (simp add: ABREVIACOES_def)
  qed
  then obtain i where "i < 12" "?t = ABREVIACOES ! i \<or> ?t = ORDEM_MESES ! i"
    using length_nomes by (metis in_set_conv_nth)
  then show ?thesis using var by auto
qed

lemma canon_mes_values: "canon_mes c = NaN \<or> (\<exists>m \<in> set ORDEM_MESES. canon_mes c = Str m)"
  by (cases c)
     (auto simp: canon_mes_def str_lower_def str_strip_def replace_meses_def categorical_def
           split: option.splits)

section \<open>Properties of the normalizer\<close>

lemma posicoes_empty: "c \<notin> set cols \<Longrightarrow> posicoes c cols = []"
  by (auto simp: posicoes_def filter_empty_conv)

lemma processar_dados_cases:
  "(\<exists>out. processar_dados num df = (None, out))
   \<or> (\<exists>e. processar_dados num df = (Some e, DataFrame_vazio))"
  by (cases "processar_dados_try num df") (auto simp: processar_dados_def)

lemma processar_dados_sem_ano:
  assumes "''ano'' \<notin> set (nomes_colunas (columns df))"
  shows "processar_dados num df = (Some (KeyError ''ano''), DataFrame_vazio)"
  using posicoes_empty[OF assms]
  by (simp add: processar_dados_def processar_dados_try_def coluna_unica_def Let_def)

lemma processar_dados_sem_mes:
  assumes "''mes'' \<notin> set (nomes_colunas (columns df))"
  shows "\<exists>e. processar_dados num df = (Some e, DataFrame_vazio)"
proof -
  have "\<exists>e. processar_dados_try num df = Inl e"
    using posicoes_empty[OF assms]
    by (auto simp: processar_dados_try_def coluna_unica_def Let_def split: sum.splits)
  then show ?thesis by (auto simp: processar_dados_def)
qed

text \<open>
  C10. For every input table \<^verbatim>\<open>processar_dados\<close> returns a frame and lets no
  exception out: either the body succeeds and its frame is returned, or the error is
  reported and the empty frame is returned. A table without a year column ends in the
  reported KeyError for 'ano' and the empty frame; a table without a month column ends
  in a reported error and the empty frame.
\<close>

theorem processar_dados_nao_propaga:
  "((\<exists>out. processar_dados num df = (None, out))
      \<or> (\<exists>e. processar_dados num df = (Some e, DataFrame_vazio)))
   \<and> (''ano'' \<notin> set (nomes_colunas (columns df))
        \<longrightarrow> processar_dados num df = (Some (KeyError ''ano''), DataFrame_vazio))
   \<and> (''mes'' \<notin> set (nomes_colunas (columns df))
        \<longrightarrow> (\<exists>e. processar_dados num df = (Some e, DataFrame_vazio)))"
  using processar_dados_cases[of num df] processar_dados_sem_ano[of df num]
        processar_dados_sem_mes[of df num]
  by blast

lemma processar_dados_None:
  "processar_dados num df = (None, out) \<Longrightarrow> processar_dados_try num df = Inr out"
  by (auto simp: processar_dados_def split: sum.splits)

lemma processar_dados_Some:
  "processar_dados num df = (Some e, out) \<Longrightarrow> out = DataFrame_vazio"
  by (auto simp: processar_dados_def split: sum.splits)

lemma saida_linhas:
  assumes ok: "processar_dados num df = (None, out)" and rect: "retangular df"
  shows "\<exists>i_ano i_mes.
           posicoes ''ano'' (nomes_colunas (columns df)) = [i_ano]
         \<and> posicoes ''mes'' (nomes_colunas (columns df)) = [i_mes]
         \<and> length (linhas out) = length (filter (retida num i_mes i_ano) (linhas df))
         \<and> (\<forall>j < length (columns df). columns out ! j = nomes_colunas (columns df) ! j)
         \<and> set colunas_categoricas \<subseteq> set (columns out)
         \<and> (\<forall>k < length (linhas out).
               length (linhas out ! k) = length (columns out)
             \<and> (\<forall>j < length (columns out).
                   columns out ! j \<in> set colunas_categoricas
                   \<longrightarrow> linhas out ! k ! j \<noteq> NaN)
             \<and> (\<forall>j < length (columns df).
                   nomes_colunas (columns df) ! j
                     \<notin> set colunas_categoricas
                   \<longrightarrow> linhas out ! k ! j
                        = convertida num i_mes i_ano
                            (filter (retida num i_mes i_ano) (linhas df) ! k) ! j))"
proof -
  let ?cols = "nomes_colunas (columns df)"
  let ?S = "set colunas_categoricas"
  from processar_dados_try_Inr[OF processar_dados_None[OF ok] rect]
  obtain i_ano i_mes where pa: "posicoes ''ano'' ?cols = [i_ano]"
    and pm: "posicoes ''mes'' ?cols = [i_mes]"
    and ext: "estende ?S (?cols, map (convertida num i_mes i_ano)
                                   (filter (retida num i_mes i_ano) (linhas df)))
                (columns out, linhas out)"
    by blast
  let ?a = "map (convertida num i_mes i_ano) (filter (retida num i_mes i_ano) (linhas df))"
  have lc: "length ?cols = length (columns df)" by (rule length_nomes_colunas)
  have len: "length (linhas out) = length (filter (retida num i_mes i_ano) (linhas df))"
    using ext by (simp add: estende_def)
  have tk: "take (length ?cols) (columns out) = ?cols" using ext by (simp add: estende_def)
  have nm: "\<forall>j < length (columns df). columns out ! j = ?cols ! j"
    using tk lc by (metis nth_take)
  have sub: "?S \<subseteq> set (columns out)" using ext by (simp add: estende_def)
  have cell: "\<And>k j. k < length (linhas out) \<Longrightarrow> j < length (columns out) \<Longrightarrow>
      linhas out ! k ! j =
        (if j < length ?cols
         then (if ?cols ! j \<in> ?S \<and> ?a ! k ! j = NaN then desconhecido else ?a ! k ! j)
         else desconhecido)"
    using ext len unfolding estende_def by simp
  have lr: "\<And>k. k < length (linhas out) \<Longrightarrow> length (linhas out ! k) = length (columns out)"
    using ext len unfolding estende_def by simp
  have le: "length (columns df) \<le> length (columns out)"
    using ext lc unfolding estende_def by simp
  have rows: "\<forall>k < length (linhas out).
               length (linhas out ! k) = length (columns out)
             \<and> (\<forall>j < length (columns out).
                   columns out ! j \<in> ?S \<longrightarrow> linhas out ! k ! j \<noteq> NaN)
             \<and> (\<forall>j < length (columns df).
                   ?cols ! j \<notin> ?S
                   \<longrightarrow> linhas out ! k ! j
                        = convertida num i_mes i_ano
                            (filter (retida num i_mes i_ano) (linhas df) ! k) ! j)"
  proof (intro allI impI conjI)
    fix k assume k: "k < length (linhas out)"
    show "length (linhas out ! k) = length (columns out)" using lr[OF k] .
  next
    fix k j assume k: "k < length (linhas out)" and j: "j < length (columns out)"
      and c: "columns out ! j \<in> ?S"
    show "linhas out ! k ! j \<noteq> NaN"
    proof (cases "j < length ?cols")
      case True
      then have "?cols ! j \<in> ?S" using c nm lc by simp
      then show ?thesis using cell[OF k j] True desconhecido_not_NaN by auto
    next
      case False
      then show ?thesis using cell[OF k j] desconhecido_not_NaN by simp
    qed
  next
    fix k j assume k: "k < length (linhas out)" and j: "j < length (columns df)"
      and c: "?cols ! j \<notin> ?S"
    have j': "j < length (columns out)" using j le by simp
    have "linhas out ! k ! j = ?a ! k ! j" using cell[OF k j'] j lc c by simp
    then show "linhas out ! k ! j
                 = convertida num i_mes i_ano (filter (retida num i_mes i_ano) (linhas df) ! k) ! j"
      using k len by simp
  qed
  show ?thesis using pa pm len nm sub rows by blast
qed

lemma convertida_outra:
  "j \<noteq> i_ano \<Longrightarrow> j \<noteq> i_mes \<Longrightarrow> convertida num i_mes i_ano r ! j = r ! j"
  by (simp add: convertida_def)

lemma convertida_mes:
  "i_mes < length r \<Longrightarrow> convertida num i_mes i_ano r ! i_mes = canon_mes (r ! i_mes)"
  by (simp add: convertida_def)

lemma fora_das_categoricas:
  "''ano'' \<notin> set colunas_categoricas" "''mes'' \<notin> set colunas_categoricas"
  "''fato_gerador_fato_gerador'' \<notin> set colunas_categoricas"
  by (simp_all add: colunas_categoricas_def)

text \<open>
  C8, amended. After a successful normalization of a table in which the causal-factor
  column is present, the causal-factor cells of the retained records are those of the
  input, in the same order: the column is left as it is, so a missing cell stays
  missing. The columns segmento, ds_canal, natureza and motivo are all present in the
  result and no retained record has a missing cell in any of them.
\<close>

theorem fato_gerador_inalterado:
  assumes ok: "processar_dados num df = (None, out)" and rect: "retangular df"
    and j: "j < length (columns df)"
    and nm: "nomes_colunas (columns df) ! j = ''fato_gerador_fato_gerador''"
  shows "\<exists>i_ano i_mes.
           posicoes ''ano'' (nomes_colunas (columns df)) = [i_ano]
         \<and> posicoes ''mes'' (nomes_colunas (columns df)) = [i_mes]
         \<and> columns out ! j = ''fato_gerador_fato_gerador''
         \<and> map (\<lambda>r. r ! j) (linhas out)
             = map (\<lambda>r. r ! j) (filter (retida num i_mes i_ano) (linhas df))
         \<and> set colunas_categoricas \<subseteq> set (columns out)
         \<and> (\<forall>k < length (linhas out). \<forall>i < length (columns out).
               columns out ! i \<in> set colunas_categoricas \<longrightarrow> linhas out ! k ! i \<noteq> NaN)"
proof -
  let ?cols = "nomes_colunas (columns df)"
  let ?S = "set colunas_categoricas"
  from saida_linhas[OF ok rect]
  obtain i_ano i_mes where pa: "posicoes ''ano'' ?cols = [i_ano]"
    and pm: "posicoes ''mes'' ?cols = [i_mes]"
    and len: "length (linhas out) = length (filter (retida num i_mes i_ano) (linhas df))"
    and cn: "\<forall>j < length (columns df). columns out ! j = ?cols ! j"
    and sub: "?S \<subseteq> set (columns out)"
    and rows: "\<forall>k < length (linhas out).
               length (linhas out ! k) = length (columns out)
             \<and> (\<forall>j < length (columns out).
                   columns out ! j \<in> ?S \<longrightarrow> linhas out ! k ! j \<noteq> NaN)
             \<and> (\<forall>j < length (columns df).
                   ?cols ! j \<notin> ?S
                   \<longrightarrow> linhas out ! k ! j
                        = convertida num i_mes i_ano
                            (filter (retida num i_mes i_ano) (linhas df) ! k) ! j)"
    by blast
  have "?cols ! i_ano = ''ano''" using posicoes_single[OF pa] by simp
  then have ja: "j \<noteq> i_ano" using nm by auto
  have "?cols ! i_mes = ''mes''" using posicoes_single[OF pm] by simp
  then have jm: "j \<noteq> i_mes" using nm by auto
  have nS: "?cols ! j \<notin> ?S" unfolding nm by (rule fora_das_categoricas(3))
  have c1: "columns out ! j = ''fato_gerador_fato_gerador''" using cn j nm by simp
  have c2: "map (\<lambda>r. r ! j) (linhas out)
             = map (\<lambda>r. r ! j) (filter (retida num i_mes i_ano) (linhas df))"
  proof (rule nth_equalityI)
    show "length (map (\<lambda>r. r ! j) (linhas out))
          = length (map (\<lambda>r. r ! j) (filter (retida num i_mes i_ano) (linhas df)))"
      using len by simp
  next
    fix k assume "k < length (map (\<lambda>r. r ! j) (linhas out))"
    then have k: "k < length (linhas out)" by simp
    from rows k have "\<forall>j < length (columns df).
                   ?cols ! j \<notin> ?S
                   \<longrightarrow> linhas out ! k ! j
                        = convertida num i_mes i_ano
                            (filter (retida num i_mes i_ano) (linhas df) ! k) ! j"
      by simp
    then have "linhas out ! k ! j
            = convertida num i_mes i_ano (filter (retida num i_mes i_ano) (linhas df) ! k) ! j"
      using j nS by simp
    also have "\<dots> = filter (retida num i_mes i_ano) (linhas df) ! k ! j"
      using ja jm by (rule convertida_outra)
    finally show "map (\<lambda>r. r ! j) (linhas out) ! k
                  = map (\<lambda>r. r ! j) (filter (retida num i_mes i_ano) (linhas df)) ! k"
      using k len by simp
  qed
  have c3: "\<forall>k < length (linhas out). \<forall>i < length (columns out).
               columns out ! i \<in> ?S \<longrightarrow> linhas out ! k ! i \<noteq> NaN"
    using rows by simp
  from pa pm c1 c2 sub c3 show ?thesis by (intro exI conjI)
qed

lemma meses_da_saida:
  assumes ok: "processar_dados num df = (None, out)" and rect: "retangular df"
  shows "\<exists>i_ano i_mes.
           posicoes ''ano'' (nomes_colunas (columns df)) = [i_ano]
         \<and> posicoes ''mes'' (nomes_colunas (columns df)) = [i_mes]
         \<and> map (\<lambda>r. r ! i_mes) (linhas out)
             = map (\<lambda>r. canon_mes (r ! i_mes)) (filter (retida num i_mes i_ano) (linhas df))
         \<and> list_all (\<lambda>r. r ! i_mes \<in> Str ` set ORDEM_MESES) (linhas out)"
proof -
  let ?cols = "nomes_colunas (columns df)"
  let ?S = "set colunas_categoricas"
  from saida_linhas[OF ok rect]
  obtain i_ano i_mes where pa: "posicoes ''ano'' ?cols = [i_ano]"
    and pm: "posicoes ''mes'' ?cols = [i_mes]"
    and len: "length (linhas out) = length (filter (retida num i_mes i_ano) (linhas df))"
    and rows: "\<forall>k < length (linhas out).
               length (linhas out ! k) = length (columns out)
             \<and> (\<forall>j < length (columns out).
                   columns out ! j \<in> ?S \<longrightarrow> linhas out ! k ! j \<noteq> NaN)
             \<and> (\<forall>j < length (columns df).
                   ?cols ! j \<notin> ?S
                   \<longrightarrow> linhas out ! k ! j
                        = convertida num i_mes i_ano
                            (filter (retida num i_mes i_ano) (linhas df) ! k) ! j)"
    by blast
  let ?kept = "filter (retida num i_mes i_ano) (linhas df)"
  have im: "i_mes < length (columns df)" "?cols ! i_mes = ''mes''"
    using posicoes_single[OF pm] length_nomes_colunas[of "columns df"] by auto
  have nS: "?cols ! i_mes \<notin> ?S" unfolding im(2) by (rule fora_das_categoricas(2))
  have lr: "\<And>r. r \<in> set ?kept \<Longrightarrow> length r = length (columns df)"
    using rect by (simp add: retangular_def list_all_iff)
  have cellk: "\<And>k. k < length (linhas out) \<Longrightarrow> linhas out ! k ! i_mes = canon_mes (?kept ! k ! i_mes)"
  proof -
    fix k assume k: "k < length (linhas out)"
    have kk: "?kept ! k \<in> set ?kept" using k len by (metis nth_mem)
    from rows k have "\<forall>j < length (columns df).
                   ?cols ! j \<notin> ?S
                   \<longrightarrow> linhas out ! k ! j = convertida num i_mes i_ano (?kept ! k) ! j"
      by simp
    then have "linhas out ! k ! i_mes = convertida num i_mes i_ano (?kept ! k) ! i_mes"
      using im(1) nS by simp
    also have "\<dots> = canon_mes (?kept ! k ! i_mes)"
      using lr[OF kk] im(1) by (simp add: convertida_mes)
    finally show "linhas out ! k ! i_mes = canon_mes (?kept ! k ! i_mes)" .
  qed
  have c1: "map (\<lambda>r. r ! i_mes) (linhas out) = map (\<lambda>r. canon_mes (r ! i_mes)) ?kept"
    by (rule nth_equalityI) (use len cellk in simp_all)
  have c2: "list_all (\<lambda>r. r ! i_mes \<in> Str ` set ORDEM_MESES) (linhas out)"
    unfolding list_all_length
  proof (intro allI impI)
    fix k assume k: "k < length (linhas out)"
    have kk: "?kept ! k \<in> set ?kept" using k len by (metis nth_mem)
    then have "canon_mes (?kept ! k ! i_mes) \<noteq> NaN" by (simp add: retida_def)
    then show "linhas out ! k ! i_mes \<in> Str ` set ORDEM_MESES"
      using canon_mes_values[of "?kept ! k ! i_mes"] cellk[OF k] by auto
  qed
  from pa pm c1 c2 show ?thesis by (intro exI conjI)
qed

text \<open>
  C9. A text that is one of the twelve full month names or of the twelve abbreviations,
  in any mix of upper and lower case and with any surrounding whitespace, resolves to
  the canonical name of that month. Every other text, a missing cell and a number
  resolve to a missing month. After a successful normalization the month column holds
  exactly the resolved months of the rows whose month and year are not missing, each a
  canonical name: a row with a missing month is not in the result. When the
  normalization fails the result has no rows.
\<close>

theorem canonicalizacao_mes:
  "(\<forall>i < 12. variante v (ORDEM_MESES ! i) \<or> variante v (ABREVIACOES ! i)
        \<longrightarrow> canon_mes (Str v) = Str (ORDEM_MESES ! i))
   \<and> ((\<forall>i < 12. \<not> variante v (ORDEM_MESES ! i) \<and> \<not> variante v (ABREVIACOES ! i))
        \<longrightarrow> canon_mes (Str v) = NaN)
   \<and> canon_mes NaN = NaN \<and> canon_mes (Num q) = NaN
   \<and> (processar_dados num df = (None, out) \<and> retangular df
        \<longrightarrow> (\<exists>i_ano i_mes.
               posicoes ''ano'' (nomes_colunas (columns df)) = [i_ano]
             \<and> posicoes ''mes'' (nomes_colunas (columns df)) = [i_mes]
             \<and> map (\<lambda>r. r ! i_mes) (linhas out)
                 = map (\<lambda>r. canon_mes (r ! i_mes))
                       (filter (\<lambda>r. canon_mes (r ! i_mes) \<noteq> NaN
                                   \<and> to_numeric num (r ! i_ano) \<noteq> NaN) (linhas df))
             \<and> list_all (\<lambda>r. r ! i_mes \<in> Str ` set ORDEM_MESES) (linhas out)))
   \<and> (processar_dados num df = (Some e, out) \<longrightarrow> linhas out = [])"
proof (intro conjI)
  show "\<forall>i < 12. variante v (ORDEM_MESES ! i) \<or> variante v (ABREVIACOES ! i)
        \<longrightarrow> canon_mes (Str v) = Str (ORDEM_MESES ! i)"
    using canon_mes_variante by blast
  show "(\<forall>i < 12. \<not> variante v (ORDEM_MESES ! i) \<and> \<not> variante v (ABREVIACOES ! i))
        \<longrightarrow> canon_mes (Str v) = NaN"
    using canon_mes_not_NaN[of v] by blast
  show "canon_mes NaN = NaN"
    by (simp add: canon_mes_def str_lower_def str_strip_def replace_meses_def categorical_def)
  show "canon_mes (Num q) = NaN"
    by (simp add: canon_mes_def str_lower_def str_strip_def replace_meses_def categorical_def)
  show "processar_dados num df = (None, out) \<and> retangular df
        \<longrightarrow> (\<exists>i_ano i_mes.
               posicoes ''ano'' (nomes_colunas (columns df)) = [i_ano]
             \<and> posicoes ''mes'' (nomes_colunas (columns df)) = [i_mes]
             \<and> map (\<lambda>r. r ! i_mes) (linhas out)
                 = map (\<lambda>r. canon_mes (r ! i_mes))
                       (filter (\<lambda>r. canon_mes (r ! i_mes) \<noteq> NaN
                                   \<and> to_numeric num (r ! i_ano) \<noteq> NaN) (linhas df))
             \<and> list_all (\<lambda>r. r ! i_mes \<in> Str ` set ORDEM_MESES) (linhas out))"
  proof
    assume h: "processar_dados num df = (None, out) \<and> retangular df"
    from meses_da_saida[OF conjunct1[OF h] conjunct2[OF h]]
    show "\<exists>i_ano i_mes.
               posicoes ''ano'' (nomes_colunas (columns df)) = [i_ano]
             \<and> posicoes ''mes'' (nomes_colunas (columns df)) = [i_mes]
             \<and> map (\<lambda>r. r ! i_mes) (linhas out)
                 = map (\<lambda>r. canon_mes (r ! i_mes))
                       (filter (\<lambda>r. canon_mes (r ! i_mes) \<noteq> NaN
                                   \<and> to_numeric num (r ! i_ano) \<noteq> NaN) (linhas df))
             \<and> list_all (\<lambda>r. r ! i_mes \<in> Str ` set ORDEM_MESES) (linhas out)"
      unfolding retida_def[abs_def] .
  qed
  show "processar_dados num df = (Some e, out) \<longrightarrow> linhas out = []"
    by (auto dest: processar_dados_Some simp: DataFrame_vazio_def)
qed

section \<open>The normalizer on the sample tables\<close>

lemma tabela_exemplo_saida: "processar_dados num_exemplo tabela_exemplo = (None, saida_exemplo)"
  by code_simp

lemma tabela_exemplo_retangular: "retangular tabela_exemplo"
  by (simp add: retangular_def tabela_exemplo_def)

lemma tabela_exemplo_nomes:
  "nomes_colunas (columns tabela_exemplo)
   = [''ano'', ''mes'', ''fato_gerador_fato_gerador'', ''segmento'']"
  by code_simp

theorem processar_dados_nao_propaga_witness:
  "''ano'' \<notin> set (nomes_colunas (columns tabela_sem_ano))
   \<and> processar_dados num_exemplo tabela_sem_ano = (Some (KeyError ''ano''), DataFrame_vazio)"
proof -
  have "nomes_colunas (columns tabela_sem_ano) = [''mes'', ''natureza'']" by code_simp
  then have h: "''ano'' \<notin> set (nomes_colunas (columns tabela_sem_ano))" by simp
  then show ?thesis using processar_dados_nao_propaga[of num_exemplo tabela_sem_ano] by blast
qed

text \<open>
  C8, as stated, fails: \<open>tabela_exemplo\<close> has the causal-factor column, its first row
  has a missing cell there, and the row is retained with the cell still missing.
\<close>

theorem fato_gerador_nulo_counterexample:
  "processar_dados num_exemplo tabela_exemplo = (None, saida_exemplo)
   \<and> nomes_colunas (columns tabela_exemplo) ! 2 = ''fato_gerador_fato_gerador''
   \<and> columns saida_exemplo ! 2 = ''fato_gerador_fato_gerador''
   \<and> linhas saida_exemplo ! 0 ! 2 = NaN"
  using tabela_exemplo_saida tabela_exemplo_nomes by (simp add: saida_exemplo_def)

theorem fato_gerador_inalterado_witness:
  "processar_dados num_exemplo tabela_exemplo = (None, saida_exemplo)
   \<and> retangular tabela_exemplo
   \<and> 2 < length (columns tabela_exemplo)
   \<and> nomes_colunas (columns tabela_exemplo) ! 2 = ''fato_gerador_fato_gerador''
   \<and> (\<exists>i_ano i_mes.
           posicoes ''ano'' (nomes_colunas (columns tabela_exemplo)) = [i_ano]
         \<and> posicoes ''mes'' (nomes_colunas (columns tabela_exemplo)) = [i_mes]
         \<and> columns saida_exemplo ! 2 = ''fato_gerador_fato_gerador''
         \<and> map (\<lambda>r. r ! 2) (linhas saida_exemplo)
             = map (\<lambda>r. r ! 2) (filter (retida num_exemplo i_mes i_ano) (linhas tabela_exemplo))
         \<and> set colunas_categoricas \<subseteq> set (columns saida_exemplo)
         \<and> (\<forall>k < length (linhas saida_exemplo). \<forall>i < length (columns saida_exemplo).
               columns saida_exemplo ! i \<in> set colunas_categoricas
               \<longrightarrow> linhas saida_exemplo ! k ! i \<noteq> NaN))
   \<and> map (\<lambda>r. r ! 2) (linhas saida_exemplo) = [NaN, Str ''f'']"
proof -
  note ok = tabela_exemplo_saida and rect = tabela_exemplo_retangular
  have j: "2 < length (columns tabela_exemplo)" by (simp add: tabela_exemplo_def)
  have nm: "nomes_colunas (columns tabela_exemplo) ! 2 = ''fato_gerador_fato_gerador''"
    by (simp add: tabela_exemplo_nomes)
  have v: "map (\<lambda>r. r ! 2) (linhas saida_exemplo) = [NaN, Str ''f'']"
    by (simp add: saida_exemplo_def)
  from fato_gerador_inalterado[OF ok rect j nm] ok rect j nm v
  show ?thesis by (intro conjI)
qed

lemma xyz_fora:
  "list_all (\<lambda>i. \<not> variante ''xyz'' (ORDEM_MESES ! i) \<and> \<not> variante ''xyz'' (ABREVIACOES ! i))
            [0..<12]"
  by code_simp

lemma marco_variante: "variante (''  MAR'' @ [CHR 0xC7] @ ''o '') (ORDEM_MESES ! 2)"
  by code_simp

theorem canonicalizacao_mes_witness:
  "variante (''  MAR'' @ [CHR 0xC7] @ ''o '') (ORDEM_MESES ! 2)
   \<and> canon_mes (Str (''  MAR'' @ [CHR 0xC7] @ ''o '')) = Str (ORDEM_MESES ! 2)
   \<and> canon_mes (Str ''xyz'') = NaN
   \<and> processar_dados num_exemplo tabela_exemplo = (None, saida_exemplo)
   \<and> retangular tabela_exemplo
   \<and> (\<exists>i_ano i_mes.
           posicoes ''ano'' (nomes_colunas (columns tabela_exemplo)) = [i_ano]
         \<and> posicoes ''mes'' (nomes_colunas (columns tabela_exemplo)) = [i_mes]
         \<and> map (\<lambda>r. r ! i_mes) (linhas saida_exemplo)
             = map (\<lambda>r. canon_mes (r ! i_mes))
                   (filter (\<lambda>r. canon_mes (r ! i_mes) \<noteq> NaN
                               \<and> to_numeric num_exemplo (r ! i_ano) \<noteq> NaN)
                           (linhas tabela_exemplo))
         \<and> list_all (\<lambda>r. r ! i_mes \<in> Str ` set ORDEM_MESES) (linhas saida_exemplo))
   \<and> length (linhas saida_exemplo) = 2"
proof -
  note ok = tabela_exemplo_saida and rect = tabela_exemplo_retangular
  note t1 = canonicalizacao_mes[of "''  MAR'' @ [CHR 0xC7] @ ''o ''" 0 num_exemplo tabela_exemplo
              saida_exemplo TypeError]
  note t2 = canonicalizacao_mes[of "''xyz''" 0 num_exemplo tabela_exemplo saida_exemplo TypeError]
  have i2: "(2::nat) < 12" by simp
  have a: "canon_mes (Str (''  MAR'' @ [CHR 0xC7] @ ''o '')) = Str (ORDEM_MESES ! 2)"
    using t1[THEN conjunct1] i2 marco_variante by blast
  have f: "\<forall>i < 12. \<not> variante ''xyz'' (ORDEM_MESES ! i) \<and> \<not> variante ''xyz'' (ABREVIACOES ! i)"
    using xyz_fora by (simp add: list_all_iff)
  have b: "canon_mes (Str ''xyz'') = NaN"
    using t2[THEN conjunct2, THEN conjunct1] f by blast
  have c: "\<exists>i_ano i_mes.
           posicoes ''ano'' (nomes_colunas (columns tabela_exemplo)) = [i_ano]
         \<and> posicoes ''mes'' (nomes_colunas (columns tabela_exemplo)) = [i_mes]
         \<and> map (\<lambda>r. r ! i_mes) (linhas saida_exemplo)
             = map (\<lambda>r. canon_mes (r ! i_mes))
                   (filter (\<lambda>r. canon_mes (r ! i_mes) \<noteq> NaN
                               \<and> to_numeric num_exemplo (r ! i_ano) \<noteq> NaN)
                           (linhas tabela_exemplo))
         \<and> list_all (\<lambda>r. r ! i_mes \<in> Str ` set ORDEM_MESES) (linhas saida_exemplo)"
    using t1[THEN conjunct2, THEN conjunct2, THEN conjunct2, THEN conjunct2, THEN conjunct1]
          ok rect by blast
  have d: "length (linhas saida_exemplo) = 2" by (simp add: saida_exemplo_def)
  from marco_variante a b ok rect c d show ?thesis by (intro conjI)
qed

end
